theory Spec2Isabelle
  imports Main
begin

section \<open>The board game prototype of main.py\<close>

text \<open>
  A shallow embedding of main.py. Python objects that are shared and mutated (pygame
  surfaces, tiles, pieces) live in explicit stores and are named by references:
  \<^item> a pygame Surface by its address in the store \<open>Surfaces\<close>;
  \<^item> a GameTile by its layer and its place in that layer's dict, in insertion order
    (place_tile gives the n-th tile of a layer the key n and no entry is ever removed);
  \<^item> a GamePiece by its place in the board's dict of pieces, in insertion order.
  Every raise of the source is a value \<open>Inl e\<close>. Reading through a reference that names
  no object cannot happen in Python; the model gives it the error \<open>Dangling\<close>.
\<close>

subsection \<open>Errors\<close>

datatype error = RuntimeError string | KeyError | IndexError | AttributeError | Dangling

definition and_then :: "error + 'a \<Rightarrow> ('a \<Rightarrow> error + 'b) \<Rightarrow> error + 'b" where
  "and_then m f = (case m of Inl e \<Rightarrow> Inl e | Inr a \<Rightarrow> f a)"

subsection \<open>Constants\<close>

definition GAME_BOARD_TILE_WIDTH :: int where "GAME_BOARD_TILE_WIDTH = 32"
definition GAME_BOARD_TILE_HEIGHT :: int where "GAME_BOARD_TILE_HEIGHT = 32"
definition GAME_BOARD_TILE_ALPHA_SELECTED :: nat where "GAME_BOARD_TILE_ALPHA_SELECTED = 127"
definition GAME_BOARD_TILE_ALPHA_NORMAL :: nat where "GAME_BOARD_TILE_ALPHA_NORMAL = 255"
definition GAME_BOARD_NUM_PIECES :: nat where "GAME_BOARD_NUM_PIECES = 12"

text \<open>
  Coordinates are integers in the model. The source's board offset
  \<open>GAME_BOARD_X = DISPLAY_WIDTH / 1.5\<close> is the float 533.33..; pygame's Rect keeps
  the integer part of what is assigned to it, which is the value taken here.
\<close>

definition GAME_BOARD_X :: int where "GAME_BOARD_X = 533"
definition GAME_BOARD_Y :: int where "GAME_BOARD_Y = 300"

subsection \<open>pygame: surfaces and rectangles\<close>

text \<open>
  What the program uses of pygame: a Surface has a size and an alpha value; \<open>copy\<close>
  makes a new Surface object with the same contents; \<open>get_rect\<close> is a new rectangle
  of the surface's size at the origin; \<open>collidepoint\<close> holds for the points inside a
  rectangle, its right and bottom edges excluded.
\<close>

record Surface =
  s_alpha :: nat
  s_width :: int
  s_height :: int

record Rect =
  r_x :: int
  r_y :: int
  r_w :: int
  r_h :: int

record Surfaces =
  store :: "nat \<Rightarrow> Surface"
  next_addr :: nat

definition Surface_new :: "Surface \<Rightarrow> Surfaces \<Rightarrow> nat \<times> Surfaces" where
  "Surface_new s h =
     (next_addr h, h\<lparr>store := (store h)(next_addr h := s), next_addr := Suc (next_addr h)\<rparr>)"

definition Surface_copy :: "nat \<Rightarrow> Surfaces \<Rightarrow> nat \<times> Surfaces" where
  "Surface_copy a h = Surface_new (store h a) h"

definition Surface_update :: "nat \<Rightarrow> (Surface \<Rightarrow> Surface) \<Rightarrow> Surfaces \<Rightarrow> Surfaces" where
  "Surface_update a f h = h\<lparr>store := (store h)(a := f (store h a))\<rparr>"

definition set_alpha :: "nat \<Rightarrow> nat \<Rightarrow> Surfaces \<Rightarrow> Surfaces" where
  "set_alpha a v h = Surface_update a (\<lambda>s. s\<lparr>s_alpha := v\<rparr>) h"

definition get_rect :: "Surface \<Rightarrow> Rect" where
  "get_rect s = \<lparr>r_x = 0, r_y = 0, r_w = s_width s, r_h = s_height s\<rparr>"

definition collidepoint :: "Rect \<Rightarrow> int \<times> int \<Rightarrow> bool" where
  "collidepoint r p =
     (r_x r \<le> fst p \<and> fst p < r_x r + r_w r \<and> r_y r \<le> snd p \<and> snd p < r_y r + r_h r)"

subsection \<open>Files\<close>

text \<open>
  The file system and the two loaders of pygame and pytmx are the environment: a file
  that exists holds a decoded image or a tile map. A tile map gives its size, its number
  of layers and, for a cell of a layer, the image of the tile there, if any.
\<close>

record TiledMap =
  tm_width :: nat
  tm_height :: nat
  tm_layers :: nat
  get_tile_image :: "nat \<Rightarrow> nat \<Rightarrow> nat \<Rightarrow> Surface option"

record Files =
  image_files :: "string \<rightharpoonup> Surface"
  tmx_files :: "string \<rightharpoonup> TiledMap"

definition load_image :: "Files \<Rightarrow> string \<Rightarrow> bool \<Rightarrow> Surfaces \<Rightarrow> error + nat \<times> Surfaces" where
  "load_image fs filepath alpha h =
     (case image_files fs filepath of
        None \<Rightarrow> Inl (RuntimeError (''Failed to find image file: '' @ filepath @ ''!''))
      | Some img \<Rightarrow> Inr (Surface_new img h))"

definition load_map :: "Files \<Rightarrow> string \<Rightarrow> error + TiledMap" where
  "load_map fs filepath =
     (case tmx_files fs filepath of
        None \<Rightarrow> Inl (RuntimeError (''Failed to find tmx file: '' @ filepath @ ''!''))
      | Some m \<Rightarrow> Inr m)"

subsection \<open>GameMouse\<close>

record GameMouse =
  m_pressed :: "bool \<times> bool \<times> bool"
  m_last_pressed :: "bool \<times> bool \<times> bool"
  m_pos :: "int \<times> int"
  m_last_pos :: "int \<times> int"

definition GameMouse_init :: GameMouse where
  "GameMouse_init =
     \<lparr>m_pressed = (False, False, False), m_last_pressed = (False, False, False),
      m_pos = (0, 0), m_last_pos = (0, 0)\<rparr>"

text \<open>The two arguments are what pygame.mouse.get_pressed and get_pos return this tick.\<close>

definition GameMouse_tick :: "bool \<times> bool \<times> bool \<Rightarrow> int \<times> int \<Rightarrow> GameMouse \<Rightarrow> GameMouse" where
  "GameMouse_tick buttons position m =
     \<lparr>m_pressed = buttons, m_last_pressed = m_pressed m,
      m_pos = position, m_last_pos = m_pos m\<rparr>"

subsection \<open>GameResources\<close>

record GameResources =
  images :: "string \<rightharpoonup> nat"
  sounds :: "string \<rightharpoonup> nat"

definition GameResources_init :: GameResources where
  "GameResources_init = \<lparr>images = Map.empty, sounds = Map.empty\<rparr>"

definition GameResources_setup ::
  "Files \<Rightarrow> GameResources \<Rightarrow> Surfaces \<Rightarrow> error + GameResources \<times> Surfaces" where
  "GameResources_setup fs r h =
     and_then (load_image fs ''checker_piece_black.png'' True h) (\<lambda>(a, h).
       let r = r\<lparr>images := (images r)(''piece_black'' \<mapsto> a)\<rparr> in
       and_then (load_image fs ''checker_piece_black_king.png'' True h) (\<lambda>(b, h).
         Inr (r\<lparr>images := (images r)(''piece_black_king'' \<mapsto> b)\<rparr>, h)))"

text \<open>
  The bare \<open>except\<close> turns whatever the lookup or the copy raises into the
  RuntimeError that names the image; the copy of a Surface raises nothing.
\<close>

definition get_image :: "GameResources \<Rightarrow> string \<Rightarrow> Surfaces \<Rightarrow> error + nat \<times> Surfaces" where
  "get_image r name h =
     (case images r name of
        None \<Rightarrow> Inl (RuntimeError (''Failed to get unknown cached image: '' @ name @ ''!''))
      | Some a \<Rightarrow> Inr (Surface_copy a h))"

definition get_sound :: "GameResources \<Rightarrow> string \<Rightarrow> Surfaces \<Rightarrow> error + nat \<times> Surfaces" where
  "get_sound r name h =
     (case sounds r name of
        None \<Rightarrow> Inl (RuntimeError (''Failed to get unknown cached sound: '' @ name @ ''!''))
      | Some a \<Rightarrow> Inr (Surface_copy a h))"

subsection \<open>GameTile and GamePiece\<close>

text \<open>
  The field \<open>t_foo\<close> is the attribute \<open>_foo\<close> of the source. A property with the
  plain getter and setter is read and written as its field; the setters that do more
  (\<open>surface\<close>, \<open>x\<close>, \<open>y\<close>) are functions. GamePiece inherits GameTile.
\<close>

type_synonym tile_ref = "nat \<times> nat"

record GameTile =
  t_index :: nat
  t_surface :: "nat option"
  t_rect :: "Rect option"
  t_x :: int
  t_y :: int
  t_layer :: nat
  t_selected :: bool
  t_piece :: "nat option"

record GamePiece = GameTile +
  p_tile :: "tile_ref option"
  p_blinking :: bool

definition GameTile_init :: GameTile where
  "GameTile_init =
     \<lparr>t_index = 0, t_surface = None, t_rect = None, t_x = 0, t_y = 0, t_layer = 0,
      t_selected = False, t_piece = None\<rparr>"

definition GamePiece_init :: GamePiece where
  "GamePiece_init =
     \<lparr>t_index = 0, t_surface = None, t_rect = None, t_x = 0, t_y = 0, t_layer = 0,
      t_selected = False, t_piece = None, p_tile = None, p_blinking = False\<rparr>"

definition surface_setter :: "Surfaces \<Rightarrow> nat \<Rightarrow> 'a GameTile_scheme \<Rightarrow> 'a GameTile_scheme" where
  "surface_setter h a t = t\<lparr>t_surface := Some a, t_rect := Some (get_rect (store h a))\<rparr>"

definition x_setter :: "int \<Rightarrow> 'a GameTile_scheme \<Rightarrow> error + 'a GameTile_scheme" where
  "x_setter v t =
     (case t_rect t of
        None \<Rightarrow> Inl AttributeError
      | Some r \<Rightarrow> Inr (t\<lparr>t_x := v, t_rect := Some (r\<lparr>r_x := v\<rparr>)\<rparr>))"

definition y_setter :: "int \<Rightarrow> 'a GameTile_scheme \<Rightarrow> error + 'a GameTile_scheme" where
  "y_setter v t =
     (case t_rect t of
        None \<Rightarrow> Inl AttributeError
      | Some r \<Rightarrow> Inr (t\<lparr>t_y := v, t_rect := Some (r\<lparr>r_y := v\<rparr>)\<rparr>))"

subsection \<open>Python properties\<close>

text \<open>
  \<open>property(f)\<close> is a descriptor with the getter \<open>f\<close> and no setter; \<open>p.setter(f)\<close>
  is a copy of the descriptor \<open>p\<close> with the setter \<open>f\<close>. Reading \<open>obj.name\<close> calls
  the getter of the descriptor bound to \<open>name\<close> in the class, writing calls its setter;
  a missing one raises AttributeError.
\<close>

record ('o, 'g, 's) property =
  fget :: "('o \<Rightarrow> 'g) option"
  fset :: "('o \<Rightarrow> 's \<Rightarrow> 'o) option"

definition property_of :: "('o \<Rightarrow> 'g) \<Rightarrow> ('o, 'g, 's) property" where
  "property_of f = \<lparr>fget = Some f, fset = None\<rparr>"

definition setter :: "('o, 'g, 's) property \<Rightarrow> ('o \<Rightarrow> 't \<Rightarrow> 'o) \<Rightarrow> ('o, 'g, 't) property" where
  "setter p f = \<lparr>fget = fget p, fset = Some f\<rparr>"

definition getattr :: "('o, 'g, 's) property \<Rightarrow> 'o \<Rightarrow> error + 'g" where
  "getattr p obj = (case fget p of None \<Rightarrow> Inl AttributeError | Some f \<Rightarrow> Inr (f obj))"

definition setattr :: "('o, 'g, 's) property \<Rightarrow> 'o \<Rightarrow> 's \<Rightarrow> error + 'o" where
  "setattr p obj v = (case fset p of None \<Rightarrow> Inl AttributeError | Some f \<Rightarrow> Inr (f obj v))"

text \<open>
  The class body of GamePiece binds \<open>tile\<close> and \<open>blinking\<close> in this order:
  \<^verbatim>\<open>tile = property(tile)\<close>, \<^verbatim>\<open>tile = tile.setter(tile)\<close>,
  \<^verbatim>\<open>blinking = property(blinking)\<close>, \<^verbatim>\<open>blinking = tile.setter(blinking)\<close>.
  The last binding is the one the class keeps for \<open>blinking\<close>; the third is the
  descriptor it replaces.
\<close>

definition GamePiece_tile :: "(GamePiece, tile_ref option, tile_ref option) property" where
  "GamePiece_tile =
     setter (property_of p_tile :: (GamePiece, tile_ref option, tile_ref option) property)
       (\<lambda>self tile. self\<lparr>p_tile := tile\<rparr>)"

definition GamePiece_blinking_getter_only :: "(GamePiece, bool, bool) property" where
  "GamePiece_blinking_getter_only = property_of p_blinking"

definition GamePiece_blinking :: "(GamePiece, tile_ref option, bool) property" where
  "GamePiece_blinking = setter GamePiece_tile (\<lambda>self blinking. self\<lparr>p_blinking := blinking\<rparr>)"

text \<open>GamePiece.tick: the piece and the store of surfaces, since the alpha of its surface changes.\<close>

definition GamePiece_tick :: "GamePiece \<Rightarrow> Surfaces \<Rightarrow> error + GamePiece \<times> Surfaces" where
  "GamePiece_tick self h =
     (let self = (if t_selected self then self\<lparr>p_blinking := \<not> p_blinking self\<rparr> else self) in
      case t_surface self of
        None \<Rightarrow> Inl AttributeError
      | Some a \<Rightarrow>
          if p_blinking self then Inr (self, set_alpha a GAME_BOARD_TILE_ALPHA_SELECTED h)
          else Inr (self, set_alpha a GAME_BOARD_TILE_ALPHA_NORMAL h))"

subsection \<open>GameBoard and Game: the state\<close>

text \<open>
  The board keeps a reference to the game and reads the mouse and the resources through
  it, so the methods of the board are functions of the whole state \<open>Game\<close>. The
  display, the clock and the shutdown flag of Game are used by the drawing and by the
  run loop only and are left out.
\<close>

record GameBoard =
  b_x :: int
  b_y :: int
  b_pieces :: "GamePiece list"
  b_piece_selected :: "nat option"
  b_tmx_data :: TiledMap
  b_tmx_tile_data :: "nat \<rightharpoonup> GameTile list"
  b_tmx_tile_selected :: "tile_ref option"

record Game =
  g_surfaces :: Surfaces
  g_mouse :: GameMouse
  g_resources :: GameResources
  g_board :: GameBoard

definition GameBoard_init :: "Files \<Rightarrow> string \<Rightarrow> error + GameBoard" where
  "GameBoard_init fs filepath =
     and_then (load_map fs filepath) (\<lambda>m.
       Inr \<lparr>b_x = 0, b_y = 0, b_pieces = [], b_piece_selected = None, b_tmx_data = m,
            b_tmx_tile_data = (\<lambda>layer. if layer < tm_layers m then Some [] else None),
            b_tmx_tile_selected = None\<rparr>)"

subsection \<open>Reading and writing through references\<close>

definition tile_at :: "Game \<Rightarrow> tile_ref \<Rightarrow> error + GameTile" where
  "tile_at g r =
     (case b_tmx_tile_data (g_board g) (fst r) of
        None \<Rightarrow> Inl Dangling
      | Some ts \<Rightarrow> if snd r < length ts then Inr (ts ! snd r) else Inl Dangling)"

definition tile_modify :: "tile_ref \<Rightarrow> (GameTile \<Rightarrow> error + GameTile) \<Rightarrow> Game \<Rightarrow> error + Game" where
  "tile_modify r f g =
     (case b_tmx_tile_data (g_board g) (fst r) of
        None \<Rightarrow> Inl Dangling
      | Some ts \<Rightarrow>
          if snd r < length ts then
            and_then (f (ts ! snd r)) (\<lambda>t.
              Inr (g\<lparr>g_board := (g_board g)\<lparr>b_tmx_tile_data :=
                     (b_tmx_tile_data (g_board g))(fst r \<mapsto> ts[snd r := t])\<rparr>\<rparr>))
          else Inl Dangling)"

definition piece_at :: "Game \<Rightarrow> nat \<Rightarrow> error + GamePiece" where
  "piece_at g p =
     (if p < length (b_pieces (g_board g)) then Inr (b_pieces (g_board g) ! p)
      else Inl Dangling)"

definition piece_modify :: "nat \<Rightarrow> (GamePiece \<Rightarrow> error + GamePiece) \<Rightarrow> Game \<Rightarrow> error + Game" where
  "piece_modify p f g =
     (if p < length (b_pieces (g_board g)) then
        and_then (f (b_pieces (g_board g) ! p)) (\<lambda>pc.
          Inr (g\<lparr>g_board := (g_board g)\<lparr>b_pieces := (b_pieces (g_board g))[p := pc]\<rparr>\<rparr>))
      else Inl Dangling)"

text \<open>A \<open>for\<close> loop over a list whose body may raise.\<close>

fun for_each :: "'a list \<Rightarrow> ('a \<Rightarrow> 's \<Rightarrow> error + 's) \<Rightarrow> 's \<Rightarrow> error + 's" where
  "for_each [] body s = Inr s"
| "for_each (x # xs) body s = and_then (body x s) (for_each xs body)"

text \<open>
  \<open>random.choice\<close>: the first argument is the number the generator draws; an empty
  sequence raises IndexError.
\<close>

definition choice :: "nat \<Rightarrow> 'a list \<Rightarrow> error + 'a" where
  "choice n xs = (if xs = [] then Inl IndexError else Inr (xs ! (n mod length xs)))"

subsection \<open>GameBoard: setting up\<close>

definition place_tile :: "nat \<Rightarrow> nat \<Rightarrow> nat \<Rightarrow> Surface \<Rightarrow> Game \<Rightarrow> error + Game" where
  "place_tile x y layer surface g =
     (case b_tmx_tile_data (g_board g) layer of
        None \<Rightarrow> Inl KeyError
      | Some ts \<Rightarrow>
          let tile = GameTile_init\<lparr>t_index := length ts + 1\<rparr>;
              (a, h) = Surface_new surface (g_surfaces g);
              tile = surface_setter h a tile
          in and_then (x_setter (int x * GAME_BOARD_TILE_WIDTH) tile) (\<lambda>tile.
             and_then (y_setter (int y * GAME_BOARD_TILE_HEIGHT) tile) (\<lambda>tile.
               let tile = tile\<lparr>t_layer := layer\<rparr>
               in Inr (g\<lparr>g_surfaces := h,
                         g_board := (g_board g)\<lparr>b_tmx_tile_data :=
                           (b_tmx_tile_data (g_board g))(layer \<mapsto> ts @ [tile])\<rparr>\<rparr>))))"

definition place_piece :: "tile_ref \<Rightarrow> nat \<Rightarrow> Game \<Rightarrow> error + Game" where
  "place_piece tile surface g =
     (let p = length (b_pieces (g_board g));
          piece = GamePiece_init\<lparr>t_index := p + 1\<rparr>;
          piece = surface_setter (g_surfaces g) surface piece
      in and_then (tile_at g tile) (\<lambda>t.
         and_then (x_setter (t_x t) piece) (\<lambda>piece.
         and_then (y_setter (t_y t) piece) (\<lambda>piece.
           let g = g\<lparr>g_board := (g_board g)\<lparr>b_pieces := b_pieces (g_board g) @ [piece]\<rparr>\<rparr>
           in and_then (tile_modify tile (\<lambda>t. Inr (t\<lparr>t_piece := Some p\<rparr>)) g)
                (piece_modify p (\<lambda>pc. Inr (pc\<lparr>p_tile := Some tile\<rparr>)))))))"

definition cells :: "TiledMap \<Rightarrow> (nat \<times> nat \<times> nat) list" where
  "cells m =
     concat (map (\<lambda>x. concat (map (\<lambda>y. map (\<lambda>layer. (x, y, layer)) [0..<tm_layers m])
       [0..<tm_height m])) [0..<tm_width m])"

definition tiles_of_layer :: "nat \<Rightarrow> GameTile list \<Rightarrow> tile_ref list" where
  "tiles_of_layer layer ts = map (Pair layer) [0..<length ts]"

definition GameBoard_setup :: "(nat \<Rightarrow> nat) \<Rightarrow> Game \<Rightarrow> error + Game" where
  "GameBoard_setup rnd g =
     and_then
       (for_each (cells (b_tmx_data (g_board g)))
          (\<lambda>(x, y, layer) g.
             case get_tile_image (b_tmx_data (g_board g)) x y layer of
               None \<Rightarrow> Inr g
             | Some surface \<Rightarrow> place_tile x y layer surface g) g)
       (\<lambda>g.
          case b_tmx_tile_data (g_board g) 0 of
            None \<Rightarrow> Inl KeyError
          | Some outer \<Rightarrow>
         (case b_tmx_tile_data (g_board g) 1 of
            None \<Rightarrow> Inl KeyError
          | Some inner \<Rightarrow>
              let outer_tiles = tiles_of_layer 0 outer;
                  inner_tiles = tiles_of_layer 1 inner;
                  all_tiles = outer_tiles @ inner_tiles;
                  x_modd = int (length all_tiles) + GAME_BOARD_TILE_WIDTH;
                  y_modd = int (length all_tiles) + GAME_BOARD_TILE_HEIGHT
              in and_then
                   (for_each all_tiles
                      (\<lambda>tile g.
                         and_then
                           (tile_modify tile (\<lambda>t. x_setter (t_x t + (b_x (g_board g) - x_modd)) t) g)
                           (\<lambda>g. tile_modify tile (\<lambda>t. y_setter (t_y t + (b_y (g_board g) - y_modd)) t) g))
                      g)
                   (for_each [0..<GAME_BOARD_NUM_PIECES]
                      (\<lambda>index g.
                         and_then (choice (rnd index) inner_tiles) (\<lambda>tile.
                         and_then (get_image (g_resources g) ''piece_black'' (g_surfaces g))
                           (\<lambda>(surface, h). place_piece tile surface (g\<lparr>g_surfaces := h\<rparr>)))))))"

subsection \<open>GameBoard: selecting and moving\<close>

definition clear_selected_tile :: "Game \<Rightarrow> error + Game" where
  "clear_selected_tile g =
     (case b_tmx_tile_selected (g_board g) of
        None \<Rightarrow> Inl AttributeError
      | Some r \<Rightarrow>
          and_then (tile_modify r (\<lambda>t. Inr (t\<lparr>t_selected := False\<rparr>)) g) (\<lambda>g.
          and_then (tile_at g r) (\<lambda>t.
            case t_surface t of
              None \<Rightarrow> Inl AttributeError
            | Some a \<Rightarrow>
                Inr (g\<lparr>g_surfaces := set_alpha a GAME_BOARD_TILE_ALPHA_NORMAL (g_surfaces g),
                       g_board := (g_board g)\<lparr>b_tmx_tile_selected := None\<rparr>\<rparr>))))"

definition set_selected_tile :: "tile_ref \<Rightarrow> Game \<Rightarrow> error + Game" where
  "set_selected_tile tile g =
     (let g = g\<lparr>g_board := (g_board g)\<lparr>b_tmx_tile_selected := Some tile\<rparr>\<rparr>
      in and_then (tile_modify tile (\<lambda>t. Inr (t\<lparr>t_selected := True\<rparr>)) g) (\<lambda>g.
         and_then (tile_at g tile) (\<lambda>t.
           case t_surface t of
             None \<Rightarrow> Inl AttributeError
           | Some a \<Rightarrow>
               Inr (g\<lparr>g_surfaces := set_alpha a GAME_BOARD_TILE_ALPHA_SELECTED (g_surfaces g)\<rparr>))))"

definition clear_selected_piece :: "Game \<Rightarrow> error + Game" where
  "clear_selected_piece g =
     (case b_piece_selected (g_board g) of
        None \<Rightarrow> Inl AttributeError
      | Some p \<Rightarrow>
          and_then (piece_modify p (\<lambda>pc. Inr (pc\<lparr>t_selected := False\<rparr>)) g) (\<lambda>g.
          and_then (piece_modify p (\<lambda>pc. setattr GamePiece_blinking pc False) g) (\<lambda>g.
            Inr (g\<lparr>g_board := (g_board g)\<lparr>b_piece_selected := None\<rparr>\<rparr>))))"

text \<open>The argument is what the caller read from a tile's \<open>piece\<close>, which may be None.\<close>

definition set_selected_piece :: "nat option \<Rightarrow> Game \<Rightarrow> error + Game" where
  "set_selected_piece piece g =
     (let g = g\<lparr>g_board := (g_board g)\<lparr>b_piece_selected := piece\<rparr>\<rparr>
      in case piece of
           None \<Rightarrow> Inl AttributeError
         | Some p \<Rightarrow> piece_modify p (\<lambda>pc. Inr (pc\<lparr>t_selected := True\<rparr>)) g)"

definition move_selected_piece :: "nat \<Rightarrow> tile_ref \<Rightarrow> Game \<Rightarrow> error + Game" where
  "move_selected_piece piece tile g =
     and_then (tile_at g tile) (\<lambda>t.
     and_then (piece_modify piece (x_setter (t_x t)) g) (\<lambda>g.
     and_then (piece_modify piece (y_setter (t_y t)) g) (\<lambda>g.
     and_then (piece_at g piece) (\<lambda>pc.
       case p_tile pc of
         None \<Rightarrow> Inl AttributeError
       | Some old \<Rightarrow>
           and_then (tile_modify old (\<lambda>t. Inr (t\<lparr>t_piece := None\<rparr>)) g) (\<lambda>g.
           and_then (piece_modify piece (\<lambda>pc. Inr (pc\<lparr>p_tile := Some tile\<rparr>)) g) (\<lambda>g.
           and_then (tile_modify tile (\<lambda>t. Inr (t\<lparr>t_piece := Some piece\<rparr>)) g)
             clear_selected_piece))))))"

subsection \<open>GameBoard.tick\<close>

text \<open>The body of the loop over the tiles of layer 1, for one tile.\<close>

definition highlight_tile :: "tile_ref \<Rightarrow> Game \<Rightarrow> error + Game" where
  "highlight_tile tile g =
     and_then (tile_at g tile) (\<lambda>t.
       case t_rect t of
         None \<Rightarrow> Inl AttributeError
       | Some rect \<Rightarrow>
           if collidepoint rect (m_pos (g_mouse g)) then
             and_then
               (if b_tmx_tile_selected (g_board g) \<noteq> None then clear_selected_tile g else Inr g)
               (set_selected_tile tile)
           else if t_selected t then clear_selected_tile g
           else Inr g)"

definition highlight_tiles :: "Game \<Rightarrow> error + Game" where
  "highlight_tiles g =
     (case b_tmx_tile_data (g_board g) 1 of
        None \<Rightarrow> Inl KeyError
      | Some ts \<Rightarrow> for_each (tiles_of_layer 1 ts) highlight_tile g)"

text \<open>
  The conditions of the three \<open>if\<close> statements that follow the loop, each read in the
  state its statement finds, with the short-circuit order of the source.
\<close>

definition switch_condition :: "Game \<Rightarrow> error + bool" where
  "switch_condition g =
     (if fst (m_pressed (g_mouse g)) \<and> b_piece_selected (g_board g) \<noteq> None then
        (case b_tmx_tile_selected (g_board g) of
           None \<Rightarrow> Inr False
         | Some r \<Rightarrow> and_then (tile_at g r) (\<lambda>t. Inr (t_piece t \<noteq> None)))
      else Inr False)"

definition select_condition :: "Game \<Rightarrow> error + bool" where
  "select_condition g =
     (if \<not> fst (m_last_pressed (g_mouse g)) \<and> fst (m_pressed (g_mouse g))
         \<and> b_piece_selected (g_board g) = None then
        (case b_tmx_tile_selected (g_board g) of
           None \<Rightarrow> Inr False
         | Some r \<Rightarrow> and_then (tile_at g r) (\<lambda>t. Inr (t_piece t \<noteq> None)))
      else Inr False)"

definition move_condition :: "Game \<Rightarrow> error + bool" where
  "move_condition g =
     (if \<not> fst (m_last_pressed (g_mouse g)) \<and> fst (m_pressed (g_mouse g))
         \<and> b_piece_selected (g_board g) \<noteq> None then
        (case b_tmx_tile_selected (g_board g) of
           None \<Rightarrow> Inr False
         | Some r \<Rightarrow> and_then (tile_at g r) (\<lambda>t. Inr (t_piece t = None)))
      else Inr False)"

text \<open>\<open>self._tmx_tile_selected.piece\<close>, as the bodies of the first two statements read it.\<close>

definition tile_selected_piece :: "Game \<Rightarrow> error + nat option" where
  "tile_selected_piece g =
     (case b_tmx_tile_selected (g_board g) of
        None \<Rightarrow> Inl AttributeError
      | Some r \<Rightarrow> and_then (tile_at g r) (\<lambda>t. Inr (t_piece t)))"

definition switch_piece :: "Game \<Rightarrow> error + Game" where
  "switch_piece g =
     and_then (switch_condition g) (\<lambda>c.
       if c then
         and_then (clear_selected_piece g) (\<lambda>g.
         and_then (tile_selected_piece g) (\<lambda>piece. set_selected_piece piece g))
       else Inr g)"

definition select_piece :: "Game \<Rightarrow> error + Game" where
  "select_piece g =
     and_then (select_condition g) (\<lambda>c.
       if c then and_then (tile_selected_piece g) (\<lambda>piece. set_selected_piece piece g)
       else Inr g)"

definition move_piece :: "Game \<Rightarrow> error + Game" where
  "move_piece g =
     and_then (move_condition g) (\<lambda>c.
       if c then
         (case (b_piece_selected (g_board g), b_tmx_tile_selected (g_board g)) of
            (Some piece, Some tile) \<Rightarrow> move_selected_piece piece tile g
          | _ \<Rightarrow> Inl AttributeError)
       else Inr g)"

definition tick_piece :: "nat \<Rightarrow> Game \<Rightarrow> error + Game" where
  "tick_piece p g =
     and_then (piece_at g p) (\<lambda>pc.
     and_then (GamePiece_tick pc (g_surfaces g)) (\<lambda>(pc, h).
       piece_modify p (\<lambda>_. Inr pc) (g\<lparr>g_surfaces := h\<rparr>)))"

definition tick_pieces :: "Game \<Rightarrow> error + Game" where
  "tick_pieces g = for_each [0..<length (b_pieces (g_board g))] tick_piece g"

definition GameBoard_tick :: "Game \<Rightarrow> error + Game" where
  "GameBoard_tick g =
     and_then (highlight_tiles g) (\<lambda>g.
     and_then (switch_piece g) (\<lambda>g.
     and_then (select_piece g) (\<lambda>g.
     and_then (move_piece g) tick_pieces)))"

subsection \<open>Game\<close>

definition Game_init :: "Files \<Rightarrow> error + Game" where
  "Game_init fs =
     and_then (GameBoard_init fs ''wood_board.tmx'') (\<lambda>board.
       Inr \<lparr>g_surfaces = \<lparr>store = (\<lambda>_. \<lparr>s_alpha = 255, s_width = 0, s_height = 0\<rparr>), next_addr = 0\<rparr>,
            g_mouse = GameMouse_init,
            g_resources = GameResources_init,
            g_board = board\<lparr>b_x := GAME_BOARD_X, b_y := GAME_BOARD_Y\<rparr>\<rparr>)"

definition Game_setup :: "Files \<Rightarrow> (nat \<Rightarrow> nat) \<Rightarrow> Game \<Rightarrow> error + Game" where
  "Game_setup fs rnd g =
     and_then (GameResources_setup fs (g_resources g) (g_surfaces g)) (\<lambda>(r, h).
       GameBoard_setup rnd (g\<lparr>g_resources := r, g_surfaces := h\<rparr>))"

definition Game_tick :: "bool \<times> bool \<times> bool \<Rightarrow> int \<times> int \<Rightarrow> Game \<Rightarrow> error + Game" where
  "Game_tick buttons position g =
     GameBoard_tick (g\<lparr>g_mouse := GameMouse_tick buttons position (g_mouse g)\<rparr>)"

text \<open>
  The states of a run: the state after \<open>game.setup()\<close>, for some files and some draws
  of the random generator, and every state a tick of the run loop leaves, for some input.
\<close>

inductive reachable :: "Game \<Rightarrow> bool" where
  after_setup: "Game_init fs = Inr g0 \<Longrightarrow> Game_setup fs rnd g0 = Inr g \<Longrightarrow> reachable g"
| after_tick: "reachable g \<Longrightarrow> Game_tick buttons position g = Inr g' \<Longrightarrow> reachable g'"

subsection \<open>Predicates and sample data of the properties\<close>

text \<open>Every cached image is an allocated surface, as it is after GameResources.setup.\<close>

definition cached_images_allocated :: "GameResources \<Rightarrow> Surfaces \<Rightarrow> bool" where
  "cached_images_allocated r h = (\<forall>name a. images r name = Some a \<longrightarrow> a < next_addr h)"

definition demo_surface :: Surface where
  "demo_surface = \<lparr>s_alpha = 255, s_width = 32, s_height = 32\<rparr>"

definition demo_resources :: GameResources where
  "demo_resources =
     \<lparr>images = [''piece_black'' \<mapsto> 0, ''piece_black_king'' \<mapsto> 1], sounds = Map.empty\<rparr>"

definition demo_surfaces :: Surfaces where
  "demo_surfaces = \<lparr>store = (\<lambda>_. demo_surface), next_addr = 2\<rparr>"

text \<open>
  A small run: a map of three cells side by side with a tile in both layers of each cell,
  and a generator whose draws alternate between the first two inner tiles, so that the
  third stays empty. After setup the inner tiles are at (495, 262), (527, 262) and
  (559, 262), 32 by 32 each.
\<close>

definition demo_map :: TiledMap where
  "demo_map =
     \<lparr>tm_width = 3, tm_height = 1, tm_layers = 2,
      get_tile_image = (\<lambda>x y layer. Some demo_surface)\<rparr>"

definition demo_files :: Files where
  "demo_files =
     \<lparr>image_files = [''checker_piece_black.png'' \<mapsto> demo_surface,
                      ''checker_piece_black_king.png'' \<mapsto> demo_surface],
      tmx_files = [''wood_board.tmx'' \<mapsto> demo_map]\<rparr>"

definition demo_rnd :: "nat \<Rightarrow> nat" where
  "demo_rnd i = (if even i then 0 else 1)"

definition demo_init :: Game where
  "demo_init = projr (Game_init demo_files)"

definition demo_start :: Game where
  "demo_start = projr (Game_setup demo_files demo_rnd demo_init)"

text \<open>The button goes down over the first inner tile \<dots>\<close>

definition demo_pressed :: Game where
  "demo_pressed =
     demo_start\<lparr>g_mouse := GameMouse_tick (True, False, False) (500, 270) (g_mouse demo_start)\<rparr>"

definition demo_highlighted :: Game where
  "demo_highlighted = projr (highlight_tiles demo_pressed)"

definition demo_selected :: Game where
  "demo_selected = projr (Game_tick (True, False, False) (500, 270) demo_start)"

text \<open>\<dots> and is held while the pointer goes to the second inner tile.\<close>

definition demo_switched :: Game where
  "demo_switched = projr (Game_tick (True, False, False) (530, 270) demo_selected)"

definition demo_held :: Game where
  "demo_held =
     demo_selected\<lparr>g_mouse := GameMouse_tick (True, False, False) (530, 270) (g_mouse demo_selected)\<rparr>"

definition demo_held_highlighted :: Game where
  "demo_held_highlighted = projr (highlight_tiles demo_held)"

text \<open>Or the button is released, and pressed again over the third, empty inner tile.\<close>

definition demo_released :: Game where
  "demo_released = projr (Game_tick (False, False, False) (560, 270) demo_selected)"

definition demo_target :: Game where
  "demo_target =
     projr (highlight_tiles
       (demo_released\<lparr>g_mouse :=
          GameMouse_tick (True, False, False) (560, 270) (g_mouse demo_released)\<rparr>))"

text \<open>The invariants of the board, and what each phase of a tick may change.\<close>

definition tiles_wf :: "GameTile list \<Rightarrow> tile_ref option \<Rightarrow> bool" where
  "tiles_wf ts sel =
     ((\<forall>r. sel = Some r \<longrightarrow> fst r = 1 \<and> snd r < length ts)
      \<and> (\<forall>k < length ts. t_rect (ts ! k) \<noteq> None \<and> t_surface (ts ! k) \<noteq> None
             \<and> (t_selected (ts ! k) \<longleftrightarrow> sel = Some (1, k)))
      \<and> distinct (map t_surface ts))"

definition pieces_wf :: "GamePiece list \<Rightarrow> nat option \<Rightarrow> nat \<Rightarrow> bool" where
  "pieces_wf ps sel n =
     ((\<forall>p. sel = Some p \<longrightarrow> p < length ps)
      \<and> (\<forall>p < length ps. t_rect (ps ! p) \<noteq> None \<and> t_surface (ps ! p) \<noteq> None
             \<and> (t_selected (ps ! p) \<longleftrightarrow> sel = Some p)
             \<and> (\<exists>k < n. p_tile (ps ! p) = Some (1, k))))"

definition links_wf :: "GameTile list \<Rightarrow> GamePiece list \<Rightarrow> nat option \<Rightarrow> bool" where
  "links_wf ts ps sel =
     ((\<forall>k < length ts. \<forall>p. t_piece (ts ! k) = Some p \<longrightarrow>
          p < length ps \<and> p_tile (ps ! p) = Some (1, k))
      \<and> (\<forall>p. sel = Some p \<longrightarrow>
            (\<exists>k < length ts. p_tile (ps ! p) = Some (1, k) \<and> t_piece (ts ! k) = Some p)))"

definition board_inv :: "Game \<Rightarrow> bool" where
  "board_inv g =
     (\<exists>ts. b_tmx_tile_data (g_board g) 1 = Some ts
        \<and> tiles_wf ts (b_tmx_tile_selected (g_board g))
        \<and> pieces_wf (b_pieces (g_board g)) (b_piece_selected (g_board g)) (length ts)
        \<and> links_wf ts (b_pieces (g_board g)) (b_piece_selected (g_board g)))"

definition highlight_only :: "Game \<Rightarrow> Game \<Rightarrow> bool" where
  "highlight_only g g' =
     (g_mouse g' = g_mouse g \<and> g_resources g' = g_resources g
      \<and> b_pieces (g_board g') = b_pieces (g_board g)
      \<and> b_piece_selected (g_board g') = b_piece_selected (g_board g)
      \<and> map_option (map (\<lambda>t. t\<lparr>t_selected := False\<rparr>)) (b_tmx_tile_data (g_board g') 1)
          = map_option (map (\<lambda>t. t\<lparr>t_selected := False\<rparr>)) (b_tmx_tile_data (g_board g) 1))"

definition under_pointer :: "Game \<Rightarrow> nat \<Rightarrow> bool" where
  "under_pointer g k =
     (case b_tmx_tile_data (g_board g) 1 of
        None \<Rightarrow> False
      | Some ts \<Rightarrow>
          k < length ts
          \<and> (case t_rect (ts ! k) of
                None \<Rightarrow> False
              | Some r \<Rightarrow> collidepoint r (m_pos (g_mouse g))))"

definition tile_alpha :: "Game \<Rightarrow> nat \<Rightarrow> nat option" where
  "tile_alpha g k =
     (case b_tmx_tile_data (g_board g) 1 of
        None \<Rightarrow> None
      | Some ts \<Rightarrow>
          if k < length ts
          then map_option (\<lambda>a. s_alpha (store (g_surfaces g) a)) (t_surface (ts ! k))
          else None)"

definition highlight_inv :: "Game \<Rightarrow> tile_ref list \<Rightarrow> Game \<Rightarrow> bool" where
  "highlight_inv g done s =
     (board_inv s \<and> highlight_only g s
      \<and> (\<forall>k. b_tmx_tile_selected (g_board s) = Some (1, k) \<longrightarrow> (1, k) \<in> set done \<longrightarrow>
            under_pointer g k)
      \<and> ((\<exists>k. (1, k) \<in> set done \<and> under_pointer g k) \<longrightarrow>
            (\<exists>k. (1, k) \<in> set done \<and> b_tmx_tile_selected (g_board s) = Some (1, k)))
      \<and> (\<forall>j. b_tmx_tile_selected (g_board g) = Some (1, j) \<longrightarrow> \<not> under_pointer g j \<longrightarrow>
            b_tmx_tile_selected (g_board s) = Some (1, j)
            \<or> tile_alpha s j = Some GAME_BOARD_TILE_ALPHA_NORMAL))"

definition with_highlight :: "Surfaces \<Rightarrow> GameTile list \<Rightarrow> tile_ref option \<Rightarrow> Game \<Rightarrow> Game" where
  "with_highlight h ts sel g =
     g\<lparr>g_surfaces := h,
       g_board := (g_board g)\<lparr>b_tmx_tile_data := (b_tmx_tile_data (g_board g))(1 \<mapsto> ts),
                               b_tmx_tile_selected := sel\<rparr>\<rparr>"

definition with_pieces :: "GamePiece list \<Rightarrow> nat option \<Rightarrow> Game \<Rightarrow> Game" where
  "with_pieces ps sel g = g\<lparr>g_board := (g_board g)\<lparr>b_pieces := ps, b_piece_selected := sel\<rparr>\<rparr>"

definition occupant :: "Game \<Rightarrow> tile_ref \<Rightarrow> nat option" where
  "occupant g r = (case tile_at g r of Inl _ \<Rightarrow> None | Inr t \<Rightarrow> t_piece t)"

definition home_tile :: "Game \<Rightarrow> nat \<Rightarrow> tile_ref option" where
  "home_tile g p = (case piece_at g p of Inl _ \<Rightarrow> None | Inr pc \<Rightarrow> p_tile pc)"

definition press_edge :: "Game \<Rightarrow> bool" where
  "press_edge g \<longleftrightarrow> \<not> fst (m_last_pressed (g_mouse g)) \<and> fst (m_pressed (g_mouse g))"

definition blink_only :: "Game \<Rightarrow> Game \<Rightarrow> bool" where
  "blink_only g g' =
     (g_mouse g' = g_mouse g \<and> g_resources g' = g_resources g
      \<and> b_tmx_tile_data (g_board g') = b_tmx_tile_data (g_board g)
      \<and> b_tmx_tile_selected (g_board g') = b_tmx_tile_selected (g_board g)
      \<and> b_piece_selected (g_board g') = b_piece_selected (g_board g)
      \<and> map (\<lambda>pc. pc\<lparr>p_blinking := False\<rparr>) (b_pieces (g_board g'))
          = map (\<lambda>pc. pc\<lparr>p_blinking := False\<rparr>) (b_pieces (g_board g)))"

definition moved_piece :: "GamePiece \<Rightarrow> GameTile \<Rightarrow> tile_ref \<Rightarrow> GamePiece" where
  "moved_piece pc t r =
     pc\<lparr>t_x := t_x t, t_y := t_y t,
        t_rect := map_option (\<lambda>rc. rc\<lparr>r_x := t_x t, r_y := t_y t\<rparr>) (t_rect pc),
        p_tile := Some r, t_selected := False, p_blinking := False\<rparr>"

definition moved_tiles :: "GameTile list \<Rightarrow> nat \<Rightarrow> nat \<Rightarrow> nat \<Rightarrow> GameTile list" where
  "moved_tiles ts k0 k p =
     (ts[k0 := (ts ! k0)\<lparr>t_piece := None\<rparr>])
       [k := ((ts[k0 := (ts ! k0)\<lparr>t_piece := None\<rparr>]) ! k)\<lparr>t_piece := Some p\<rparr>]"

definition setup_inv :: "Game \<Rightarrow> bool" where
  "setup_inv s =
     (b_tmx_tile_selected (g_board s) = None \<and> b_piece_selected (g_board s) = None
      \<and> (\<forall>ts. b_tmx_tile_data (g_board s) 1 = Some ts \<longrightarrow>
            tiles_wf ts None
            \<and> (\<forall>k < length ts. \<exists>a < next_addr (g_surfaces s). t_surface (ts ! k) = Some a)
            \<and> pieces_wf (b_pieces (g_board s)) None (length ts)
            \<and> links_wf ts (b_pieces (g_board s)) None))"

definition setup_inv_n :: "nat \<Rightarrow> Game \<Rightarrow> bool" where
  "setup_inv_n n s = (setup_inv s \<and> (\<exists>ts. b_tmx_tile_data (g_board s) 1 = Some ts \<and> length ts = n))"

definition one_selected :: "Game \<Rightarrow> bool" where
  "one_selected g =
     ((\<forall>p < length (b_pieces (g_board g)).
         t_selected (b_pieces (g_board g) ! p) \<longleftrightarrow> b_piece_selected (g_board g) = Some p)
      \<and> (\<forall>q. b_piece_selected (g_board g) = Some q \<longrightarrow> q < length (b_pieces (g_board g))))"

section \<open>Properties\<close>

subsection \<open>The resource cache\<close>

lemma cached_images_allocated_lt:
  "cached_images_allocated r h \<Longrightarrow> images r name = Some a \<Longrightarrow> a < next_addr h"
  by (simp add: cached_images_allocated_def)

lemma cached_images_allocated_mono:
  "cached_images_allocated r h \<Longrightarrow> next_addr h \<le> next_addr h' \<Longrightarrow> cached_images_allocated r h'"
  unfolding cached_images_allocated_def by (meson less_le_trans)

lemma get_image_registered:
  "images r name = Some a \<Longrightarrow>
   get_image r name h =
     Inr (next_addr h, h\<lparr>store := (store h)(next_addr h := store h a), next_addr := Suc (next_addr h)\<rparr>)"
  by (simp add: get_image_def Surface_copy_def Surface_new_def)

lemma get_image_unregistered:
  "images r name = None \<Longrightarrow>
   get_image r name h = Inl (RuntimeError (''Failed to get unknown cached image: '' @ name @ ''!''))"
  by (simp add: get_image_def)

lemma demo_cached: "cached_images_allocated demo_resources demo_surfaces"
  by (simp add: cached_images_allocated_def demo_resources_def demo_surfaces_def)

lemma demo_resources_simps:
  "images demo_resources ''piece_black'' = Some 0"
  "images demo_resources ''piece_white'' = None"
  "next_addr demo_surfaces = 2"
  "store demo_surfaces a = demo_surface"
  by (simp_all add: demo_resources_def demo_surfaces_def)

text \<open>
  C7. get_image fails exactly when the name is not registered in the cache, and the error
  it raises names the missing image. For a registered name it returns a new surface (the
  next free address, which no cache entry holds) whose contents are those of the cached
  image, and every surface allocated before the call, the cached ones among them, is as
  it was; the cache itself is not written.
\<close>

theorem get_image_fails_iff_unregistered:
  assumes "cached_images_allocated r h"
  shows "((\<exists>e. get_image r name h = Inl e) \<longleftrightarrow> images r name = None)
       \<and> (case images r name of
            None \<Rightarrow> get_image r name h =
              Inl (RuntimeError (''Failed to get unknown cached image: '' @ name @ ''!''))
          | Some a \<Rightarrow>
              (\<exists>h'. get_image r name h = Inr (next_addr h, h')
                 \<and> store h' (next_addr h) = store h a
                 \<and> next_addr h \<notin> ran (images r)
                 \<and> (\<forall>b < next_addr h. store h' b = store h b)
                 \<and> cached_images_allocated r h'))"
proof (cases "images r name")
  case None
  then show ?thesis by (simp add: get_image_unregistered)
next
  case (Some a)
  have fresh: "next_addr h \<notin> ran (images r)"
    using assms by (auto simp: ran_def dest: cached_images_allocated_lt)
  have "cached_images_allocated r
          (h\<lparr>store := (store h)(next_addr h := store h a), next_addr := Suc (next_addr h)\<rparr>)"
    using assms by (rule cached_images_allocated_mono) simp
  with Some fresh show ?thesis by (simp add: get_image_registered)
qed

theorem get_image_witness:
  "cached_images_allocated demo_resources demo_surfaces
   \<and> (\<exists>h'. get_image demo_resources ''piece_black'' demo_surfaces = Inr (2, h')
         \<and> store h' 2 = store demo_surfaces 0 \<and> store h' 0 = store demo_surfaces 0)
   \<and> get_image demo_resources ''piece_white'' demo_surfaces
       = Inl (RuntimeError ''Failed to get unknown cached image: piece_white!'')"
  using get_image_fails_iff_unregistered [OF demo_cached, of "''piece_black''"]
    get_image_fails_iff_unregistered [OF demo_cached, of "''piece_white''"]
  by (auto simp: demo_cached demo_resources_simps)

text \<open>
  C8. Two calls of get_image with a registered name return two surfaces that differ from
  each other and from the cached one, each with the contents of the cached image. Whatever
  is done to the first (\<open>Surface_update\<close> with any function, set_alpha among them), after
  the second call or between the two calls, the second copy and the cached original keep
  their contents, and a later call still copies the original.
\<close>

theorem get_image_copies_independent:
  assumes "cached_images_allocated r h" and "images r name = Some c"
  shows "\<exists>a1 h1 a2 h2.
           get_image r name h = Inr (a1, h1) \<and> get_image r name h1 = Inr (a2, h2)
         \<and> a1 \<noteq> a2 \<and> a1 \<noteq> c \<and> a2 \<noteq> c
         \<and> store h2 a1 = store h c \<and> store h2 a2 = store h c \<and> store h2 c = store h c
         \<and> (\<forall>f. store (Surface_update a1 f h2) a2 = store h2 a2
               \<and> store (Surface_update a1 f h2) c = store h2 c
               \<and> (\<exists>a3 h3. get_image r name (Surface_update a1 f h2) = Inr (a3, h3)
                     \<and> store h3 a3 = store h c))
         \<and> (\<forall>f. \<exists>a2' h2'. get_image r name (Surface_update a1 f h1) = Inr (a2', h2')
                     \<and> a2' \<noteq> a1 \<and> store h2' a2' = store h c)"
proof -
  have "c < next_addr h"
    using assms by (rule cached_images_allocated_lt)
  then show ?thesis
    using assms(2) by (simp add: get_image_registered Surface_update_def)
qed

theorem get_image_copies_witness:
  "\<exists>a1 h1 a2 h2.
     get_image demo_resources ''piece_black'' demo_surfaces = Inr (a1, h1)
   \<and> get_image demo_resources ''piece_black'' h1 = Inr (a2, h2)
   \<and> a1 \<noteq> a2
   \<and> store (set_alpha a1 127 h2) a2 = demo_surface
   \<and> store (set_alpha a1 127 h2) 0 = demo_surface"
  using get_image_copies_independent [OF demo_cached, of "''piece_black''" 0]
  by (auto simp: demo_resources_simps set_alpha_def)

subsection \<open>The blinking property of GamePiece\<close>

text \<open>
  C10. Reading the \<open>blinking\<close> property of a piece returns the piece's home tile
  reference, the value of its \<open>_tile\<close> field, and not its blink flag: the descriptor
  bound to \<open>blinking\<close> has the getter of the \<open>tile\<close> property.
\<close>

theorem blinking_reads_tile: "getattr GamePiece_blinking piece = Inr (p_tile piece)"
  by (simp add: getattr_def GamePiece_blinking_def GamePiece_tile_def setter_def property_of_def)

subsection \<open>The invariant of the board\<close>

declare One_nat_def [simp del]

lemma and_then_Inr [simp]: "and_then (Inr a) f = f a"
  by (simp add: and_then_def)

lemma and_then_Inl [simp]: "and_then (Inl e) f = Inl e"
  by (simp add: and_then_def)

lemma and_then_eq_Inr: "and_then m f = Inr b \<longleftrightarrow> (\<exists>a. m = Inr a \<and> f a = Inr b)"
  by (cases m) simp_all

subsection \<open>Loops\<close>

lemma for_each_append:
  "for_each (xs @ ys) body s = and_then (for_each xs body s) (for_each ys body)"
  by (induction xs arbitrary: s) (auto simp: and_then_def split: sum.splits)

lemma for_each_partial:
  assumes "for_each xs body s = Inr s'" and "I s"
    and "\<And>x s s'. x \<in> set xs \<Longrightarrow> I s \<Longrightarrow> body x s = Inr s' \<Longrightarrow> I s'"
  shows "I s'"
  using assms
proof (induction xs arbitrary: s)
  case Nil
  then show ?case by simp
next
  case (Cons x xs)
  from Cons.prems(1) obtain s1 where s1: "body x s = Inr s1" and rest: "for_each xs body s1 = Inr s'"
    by (auto simp: and_then_eq_Inr)
  have "I s1" using Cons.prems(2,3) s1 by auto
  with rest Cons.prems(3) show ?case by (intro Cons.IH) auto
qed

lemma for_each_total_prefix:
  assumes "I [] s"
    and "\<And>ys x zs s. xs = ys @ x # zs \<Longrightarrow> I ys s \<Longrightarrow> \<exists>s'. body x s = Inr s' \<and> I (ys @ [x]) s'"
  shows "\<exists>s'. for_each xs body s = Inr s' \<and> I xs s'"
proof -
  have "\<And>ys s. ys @ zs = xs \<Longrightarrow> I ys s \<Longrightarrow> \<exists>s'. for_each zs body s = Inr s' \<and> I xs s'" for zs
  proof (induction zs)
    case Nil
    then show ?case by auto
  next
    case (Cons z zs)
    from Cons.prems assms(2) [of ys z zs s] obtain s1 where
      s1: "body z s = Inr s1" and i1: "I (ys @ [z]) s1" by auto
    from Cons.IH [of "ys @ [z]" s1] Cons.prems(1) i1 s1 show ?case by auto
  qed
  from this [of "[]" xs s] assms(1) show ?thesis by simp
qed

lemma for_each_total:
  assumes "I s" and "\<And>x s. x \<in> set xs \<Longrightarrow> I s \<Longrightarrow> \<exists>s'. body x s = Inr s' \<and> I s'"
  shows "\<exists>s'. for_each xs body s = Inr s' \<and> I s'"
proof -
  have "\<exists>s'. for_each xs body s = Inr s' \<and> (\<lambda>_. I) xs s'"
  proof (rule for_each_total_prefix [where I = "\<lambda>_. I" and xs = xs and body = body and s = s])
    show "I s" by fact
  next
    fix ys x zs s
    assume "xs = ys @ x # zs" "I s"
    then show "\<exists>s'. body x s = Inr s' \<and> I s'"
      using assms(2) [of x s] by auto
  qed
  then show ?thesis by simp
qed

subsection \<open>References\<close>

lemma tile_at_Inr:
  "b_tmx_tile_data (g_board g) l = Some ts \<Longrightarrow> k < length ts \<Longrightarrow> tile_at g (l, k) = Inr (ts ! k)"
  by (simp add: tile_at_def)

lemma tile_modify_Inr:
  "b_tmx_tile_data (g_board g) l = Some ts \<Longrightarrow> k < length ts \<Longrightarrow> f (ts ! k) = Inr t \<Longrightarrow>
   tile_modify (l, k) f g =
     Inr (g\<lparr>g_board := (g_board g)\<lparr>b_tmx_tile_data :=
            (b_tmx_tile_data (g_board g))(l \<mapsto> ts[k := t])\<rparr>\<rparr>)"
  by (simp add: tile_modify_def)

lemma piece_at_Inr:
  "p < length (b_pieces (g_board g)) \<Longrightarrow> piece_at g p = Inr (b_pieces (g_board g) ! p)"
  by (simp add: piece_at_def)

lemma piece_modify_Inr:
  "p < length (b_pieces (g_board g)) \<Longrightarrow> f (b_pieces (g_board g) ! p) = Inr pc \<Longrightarrow>
   piece_modify p f g =
     Inr (g\<lparr>g_board := (g_board g)\<lparr>b_pieces := (b_pieces (g_board g))[p := pc]\<rparr>\<rparr>)"
  by (simp add: piece_modify_def)

subsection \<open>Highlight\<close>

lemma with_highlight_simps [simp]:
  "g_surfaces (with_highlight h ts sel g) = h"
  "g_mouse (with_highlight h ts sel g) = g_mouse g"
  "g_resources (with_highlight h ts sel g) = g_resources g"
  "b_pieces (g_board (with_highlight h ts sel g)) = b_pieces (g_board g)"
  "b_piece_selected (g_board (with_highlight h ts sel g)) = b_piece_selected (g_board g)"
  "b_tmx_tile_data (g_board (with_highlight h ts sel g)) 1 = Some ts"
  "b_tmx_tile_selected (g_board (with_highlight h ts sel g)) = sel"
  "with_highlight h' ts' sel' (with_highlight h ts sel g) = with_highlight h' ts' sel' g"
  by (simp_all add: with_highlight_def)

lemma clear_selected_tile_Inr:
  assumes "b_tmx_tile_data (g_board g) 1 = Some ts"
    and "b_tmx_tile_selected (g_board g) = Some (1, j)" and "j < length ts"
    and "t_surface (ts ! j) = Some a"
  shows "clear_selected_tile g =
     Inr (with_highlight (set_alpha a GAME_BOARD_TILE_ALPHA_NORMAL (g_surfaces g))
            (ts[j := (ts ! j)\<lparr>t_selected := False\<rparr>]) None g)"
  using assms
  by (simp add: clear_selected_tile_def with_highlight_def tile_modify_Inr [where ts = ts]
      tile_at_Inr [where ts = "ts[j := (ts ! j)\<lparr>t_selected := False\<rparr>]"])

lemma set_selected_tile_Inr:
  assumes "b_tmx_tile_data (g_board g) 1 = Some ts" and "k < length ts"
    and "t_surface (ts ! k) = Some a"
  shows "set_selected_tile (1, k) g =
     Inr (with_highlight (set_alpha a GAME_BOARD_TILE_ALPHA_SELECTED (g_surfaces g))
            (ts[k := (ts ! k)\<lparr>t_selected := True\<rparr>]) (Some (1, k)) g)"
  using assms
  by (simp add: set_selected_tile_def with_highlight_def Let_def tile_modify_Inr [where ts = ts]
      tile_at_Inr [where ts = "ts[k := (ts ! k)\<lparr>t_selected := True\<rparr>]"])

subsection \<open>The invariant, piecewise\<close>

lemma map_update_same:
  "k < length ts \<Longrightarrow> f t = f (ts ! k) \<Longrightarrow> map f (ts[k := t]) = map f ts"
  by (simp add: map_update list_update_same_conv)

lemma nth_update_proj:
  "f t = f (ts ! k) \<Longrightarrow> f (ts[k := t] ! j) = f (ts ! j)"
  by (cases "k < length ts") (auto simp: nth_list_update list_update_beyond)

lemma tiles_wf_clear:
  "tiles_wf ts (Some (1, j)) \<Longrightarrow> tiles_wf (ts[j := (ts ! j)\<lparr>t_selected := False\<rparr>]) None"
  by (auto simp: tiles_wf_def nth_list_update map_update_same)

lemma tiles_wf_set:
  "tiles_wf ts None \<Longrightarrow> k < length ts \<Longrightarrow>
   tiles_wf (ts[k := (ts ! k)\<lparr>t_selected := True\<rparr>]) (Some (1, k))"
  by (auto simp: tiles_wf_def nth_list_update map_update_same)

lemma links_wf_flag:
  "links_wf ts ps sel \<Longrightarrow> links_wf (ts[k := (ts ! k)\<lparr>t_selected := b\<rparr>]) ps sel"
  by (simp add: links_wf_def nth_update_proj [where f = t_piece])

lemma tiles_wf_sel: "tiles_wf ts (Some r) \<Longrightarrow> \<exists>j < length ts. r = (1, j)"
  by (cases r) (auto simp: tiles_wf_def)

lemma tiles_wf_surface: "tiles_wf ts sel \<Longrightarrow> k < length ts \<Longrightarrow> \<exists>a. t_surface (ts ! k) = Some a"
  by (auto simp: tiles_wf_def)

lemma tiles_wf_rect: "tiles_wf ts sel \<Longrightarrow> k < length ts \<Longrightarrow> \<exists>r. t_rect (ts ! k) = Some r"
  by (auto simp: tiles_wf_def)

lemma tiles_wf_flag:
  "tiles_wf ts sel \<Longrightarrow> k < length ts \<Longrightarrow> t_selected (ts ! k) \<longleftrightarrow> sel = Some (1, k)"
  by (auto simp: tiles_wf_def)

lemma tiles_wf_distinct:
  "tiles_wf ts sel \<Longrightarrow> j < length ts \<Longrightarrow> k < length ts \<Longrightarrow>
   t_surface (ts ! j) = t_surface (ts ! k) \<Longrightarrow> j = k"
  by (auto simp: tiles_wf_def distinct_conv_nth)

lemma board_invI:
  "b_tmx_tile_data (g_board g) 1 = Some ts \<Longrightarrow> tiles_wf ts (b_tmx_tile_selected (g_board g)) \<Longrightarrow>
   pieces_wf (b_pieces (g_board g)) (b_piece_selected (g_board g)) (length ts) \<Longrightarrow>
   links_wf ts (b_pieces (g_board g)) (b_piece_selected (g_board g)) \<Longrightarrow> board_inv g"
  by (auto simp: board_inv_def)

lemma highlight_only_refl: "highlight_only g g"
  by (simp add: highlight_only_def)

lemma highlight_only_tiles:
  assumes "highlight_only g s" and "b_tmx_tile_data (g_board s) 1 = Some ts"
  obtains tg where "b_tmx_tile_data (g_board g) 1 = Some tg" and "length tg = length ts"
    and "\<And>k. k < length ts \<Longrightarrow> (tg ! k)\<lparr>t_selected := False\<rparr> = (ts ! k)\<lparr>t_selected := False\<rparr>"
proof (cases "b_tmx_tile_data (g_board g) 1")
  case None
  with assms show ?thesis by (simp add: highlight_only_def)
next
  case (Some tg)
  with assms have
    eq: "map (\<lambda>t. t\<lparr>t_selected := False\<rparr>) ts = map (\<lambda>t. t\<lparr>t_selected := False\<rparr>) tg"
    by (simp add: highlight_only_def)
  from eq have len: "length tg = length ts"
    using map_eq_imp_length_eq by fastforce
  have "(tg ! k)\<lparr>t_selected := False\<rparr> = (ts ! k)\<lparr>t_selected := False\<rparr>" if "k < length ts" for k
    using that len nth_map [of k ts "\<lambda>t. t\<lparr>t_selected := False\<rparr>"]
      nth_map [of k tg "\<lambda>t. t\<lparr>t_selected := False\<rparr>"] eq by simp
  with Some len show ?thesis using that by blast
qed

lemma under_pointer_highlight_only:
  assumes "highlight_only g s" and "b_tmx_tile_data (g_board s) 1 = Some ts"
  shows "under_pointer g k \<longleftrightarrow>
         k < length ts \<and> (\<exists>r. t_rect (ts ! k) = Some r \<and> collidepoint r (m_pos (g_mouse s)))"
proof -
  from assms obtain tg where tg: "b_tmx_tile_data (g_board g) 1 = Some tg"
    and len: "length tg = length ts"
    and eq: "\<And>k. k < length ts \<Longrightarrow> (tg ! k)\<lparr>t_selected := False\<rparr> = (ts ! k)\<lparr>t_selected := False\<rparr>"
    using highlight_only_tiles by blast
  have "t_rect (tg ! k) = t_rect (ts ! k)" if "k < length ts"
    using arg_cong [OF eq [OF that], of t_rect] by simp
  moreover have "g_mouse s = g_mouse g"
    using assms(1) by (simp add: highlight_only_def)
  ultimately show ?thesis
    using tg len by (cases "t_rect (ts ! k)") (auto simp: under_pointer_def)
qed

lemma highlight_only_result:
  assumes "highlight_only g s" and "b_tmx_tile_data (g_board s) 1 = Some ts"
    and "map (\<lambda>t. t\<lparr>t_selected := False\<rparr>) ts' = map (\<lambda>t. t\<lparr>t_selected := False\<rparr>) ts"
  shows "highlight_only g (with_highlight h ts' sel s)"
  using assms by (simp add: highlight_only_def)

lemma board_inv_result:
  assumes "tiles_wf ts' sel"
    and "pieces_wf (b_pieces (g_board s)) (b_piece_selected (g_board s)) (length ts')"
    and "links_wf ts' (b_pieces (g_board s)) (b_piece_selected (g_board s))"
  shows "board_inv (with_highlight h ts' sel s)"
  using assms by (simp add: board_inv_def)

lemma tile_alpha_result:
  "tile_alpha (with_highlight h ts sel s) j =
     (if j < length ts then map_option (\<lambda>a. s_alpha (store h a)) (t_surface (ts ! j)) else None)"
  by (simp add: tile_alpha_def)

lemma tile_alpha_unfold:
  "b_tmx_tile_data (g_board s) 1 = Some ts \<Longrightarrow>
   tile_alpha s j =
     (if j < length ts then map_option (\<lambda>a. s_alpha (store (g_surfaces s) a)) (t_surface (ts ! j))
      else None)"
  by (simp add: tile_alpha_def)

lemma store_set_alpha:
  "store (set_alpha a v h) b = (if b = a then (store h a)\<lparr>s_alpha := v\<rparr> else store h b)"
  by (simp add: set_alpha_def Surface_update_def)

lemma tile_alpha_set_alpha:
  assumes "tiles_wf ts sel" and "b_tmx_tile_data (g_board s) 1 = Some ts" and "k < length ts"
    and "t_surface (ts ! k) = Some a"
  shows "tile_alpha (with_highlight (set_alpha a v (g_surfaces s))
            (ts[k := (ts ! k)\<lparr>t_selected := b\<rparr>]) sel' s) j
         = (if j = k then Some v else tile_alpha s j)"
proof (cases "j < length ts")
  case False
  with assms show ?thesis by (auto simp: tile_alpha_result tile_alpha_unfold)
next
  case True
  with assms(1) obtain aj where aj: "t_surface (ts ! j) = Some aj"
    using tiles_wf_surface by blast
  have "aj = a \<longleftrightarrow> j = k"
    using tiles_wf_distinct [OF assms(1) True assms(3)] aj assms(4) by auto
  with True aj assms show ?thesis
    by (simp add: tile_alpha_result tile_alpha_unfold nth_update_proj [where f = t_surface]
        store_set_alpha)
qed

lemma clear_selected_tile_inv:
  assumes "board_inv s" and "highlight_only g s"
    and "b_tmx_tile_selected (g_board s) = Some (1, j)"
  shows "\<exists>s'. clear_selected_tile s = Inr s' \<and> board_inv s' \<and> highlight_only g s'
           \<and> b_tmx_tile_selected (g_board s') = None
           \<and> (\<forall>i. tile_alpha s' i =
                  (if i = j then Some GAME_BOARD_TILE_ALPHA_NORMAL else tile_alpha s i))"
proof -
  from assms(1) obtain ts where ts: "b_tmx_tile_data (g_board s) 1 = Some ts"
    and twf: "tiles_wf ts (b_tmx_tile_selected (g_board s))"
    and pwf: "pieces_wf (b_pieces (g_board s)) (b_piece_selected (g_board s)) (length ts)"
    and lwf: "links_wf ts (b_pieces (g_board s)) (b_piece_selected (g_board s))"
    by (auto simp: board_inv_def)
  from twf assms(3) have j: "j < length ts"
    using tiles_wf_sel by fastforce
  with twf obtain a where a: "t_surface (ts ! j) = Some a"
    using tiles_wf_surface by blast
  let ?ts = "ts[j := (ts ! j)\<lparr>t_selected := False\<rparr>]"
  let ?s = "with_highlight (set_alpha a GAME_BOARD_TILE_ALPHA_NORMAL (g_surfaces s)) ?ts None s"
  have "clear_selected_tile s = Inr ?s"
    using ts assms(3) j a by (rule clear_selected_tile_Inr)
  moreover have "board_inv ?s"
    using twf pwf lwf assms(3)
    by (intro board_inv_result) (simp_all add: tiles_wf_clear links_wf_flag)
  moreover have "highlight_only g ?s"
    using assms(2) ts j by (intro highlight_only_result) (simp_all add: map_update_same)
  moreover have "tile_alpha ?s i = (if i = j then Some GAME_BOARD_TILE_ALPHA_NORMAL else tile_alpha s i)" for i
    using twf ts j a by (rule tile_alpha_set_alpha)
  ultimately show ?thesis by simp
qed

lemma set_selected_tile_inv:
  assumes "board_inv s" and "highlight_only g s"
    and "b_tmx_tile_selected (g_board s) = None"
    and "b_tmx_tile_data (g_board s) 1 = Some ts" and "k < length ts"
  shows "\<exists>s'. set_selected_tile (1, k) s = Inr s' \<and> board_inv s' \<and> highlight_only g s'
           \<and> b_tmx_tile_selected (g_board s') = Some (1, k)
           \<and> (\<forall>i. tile_alpha s' i =
                  (if i = k then Some GAME_BOARD_TILE_ALPHA_SELECTED else tile_alpha s i))"
proof -
  from assms(1,4) have twf: "tiles_wf ts (b_tmx_tile_selected (g_board s))"
    and pwf: "pieces_wf (b_pieces (g_board s)) (b_piece_selected (g_board s)) (length ts)"
    and lwf: "links_wf ts (b_pieces (g_board s)) (b_piece_selected (g_board s))"
    by (auto simp: board_inv_def)
  from twf assms(5) obtain a where a: "t_surface (ts ! k) = Some a"
    using tiles_wf_surface by blast
  let ?ts = "ts[k := (ts ! k)\<lparr>t_selected := True\<rparr>]"
  let ?s = "with_highlight (set_alpha a GAME_BOARD_TILE_ALPHA_SELECTED (g_surfaces s)) ?ts
              (Some (1, k)) s"
  have "set_selected_tile (1, k) s = Inr ?s"
    using assms(4,5) a by (rule set_selected_tile_Inr)
  moreover have "board_inv ?s"
    using twf pwf lwf assms(3,5)
    by (intro board_inv_result) (simp_all add: tiles_wf_set links_wf_flag)
  moreover have "highlight_only g ?s"
    using assms(2,4,5) by (intro highlight_only_result) (simp_all add: map_update_same)
  moreover have "tile_alpha ?s i = (if i = k then Some GAME_BOARD_TILE_ALPHA_SELECTED else tile_alpha s i)" for i
    using twf assms(4,5) a by (rule tile_alpha_set_alpha)
  ultimately show ?thesis by simp
qed

lemma highlight_tile_unfold:
  assumes "board_inv s" and "highlight_only g s"
    and "b_tmx_tile_data (g_board s) 1 = Some ts" and "k < length ts"
  shows "highlight_tile (1, k) s =
     (if under_pointer g k then
        and_then (if b_tmx_tile_selected (g_board s) \<noteq> None then clear_selected_tile s else Inr s)
          (set_selected_tile (1, k))
      else if b_tmx_tile_selected (g_board s) = Some (1, k) then clear_selected_tile s
      else Inr s)"
proof -
  from assms(1,3) have twf: "tiles_wf ts (b_tmx_tile_selected (g_board s))"
    by (auto simp: board_inv_def)
  from twf assms(4) obtain r where r: "t_rect (ts ! k) = Some r"
    using tiles_wf_rect by blast
  have "under_pointer g k \<longleftrightarrow> collidepoint r (m_pos (g_mouse s))"
    using under_pointer_highlight_only [OF assms(2,3), of k] assms(4) r by simp
  moreover have "t_selected (ts ! k) \<longleftrightarrow> b_tmx_tile_selected (g_board s) = Some (1, k)"
    using twf assms(4) by (rule tiles_wf_flag)
  ultimately show ?thesis
    using r by (simp add: highlight_tile_def tile_at_Inr [OF assms(3,4)])
qed

lemma highlight_only_length:
  assumes "highlight_only g s" and "b_tmx_tile_data (g_board s) 1 = Some ts"
    and "b_tmx_tile_data (g_board g) 1 = Some tg"
  shows "length ts = length tg"
  using highlight_only_tiles [OF assms(1,2)] assms(3) by (metis option.inject)

lemma highlight_tile_step:
  assumes inv: "highlight_inv g done s"
    and tg: "b_tmx_tile_data (g_board g) 1 = Some tg" and k: "k < length tg"
    and new: "(1, k) \<notin> set done"
  shows "\<exists>s'. highlight_tile (1, k) s = Inr s' \<and> highlight_inv g (done @ [(1, k)]) s'"
proof -
  from inv have bi: "board_inv s" and ho: "highlight_only g s"
    and i3: "\<And>k. b_tmx_tile_selected (g_board s) = Some (1, k) \<Longrightarrow> (1, k) \<in> set done \<Longrightarrow>
                  under_pointer g k"
    and i4: "(\<exists>k. (1, k) \<in> set done \<and> under_pointer g k) \<Longrightarrow>
               (\<exists>k. (1, k) \<in> set done \<and> b_tmx_tile_selected (g_board s) = Some (1, k))"
    and i5: "\<And>j. b_tmx_tile_selected (g_board g) = Some (1, j) \<Longrightarrow> \<not> under_pointer g j \<Longrightarrow>
                  b_tmx_tile_selected (g_board s) = Some (1, j)
                  \<or> tile_alpha s j = Some GAME_BOARD_TILE_ALPHA_NORMAL"
    by (auto simp: highlight_inv_def)
  from bi obtain ts where ts: "b_tmx_tile_data (g_board s) 1 = Some ts"
    and twf: "tiles_wf ts (b_tmx_tile_selected (g_board s))"
    by (auto simp: board_inv_def)
  have len: "length ts = length tg"
    using ho ts tg by (rule highlight_only_length)
  with k have k': "k < length ts" by simp
  note unfold = highlight_tile_unfold [OF bi ho ts k']
  show ?thesis
  proof (cases "under_pointer g k")
    case True
    have "\<exists>s1. (if b_tmx_tile_selected (g_board s) \<noteq> None then clear_selected_tile s else Inr s) = Inr s1
            \<and> board_inv s1 \<and> highlight_only g s1 \<and> b_tmx_tile_selected (g_board s1) = None
            \<and> (\<forall>j. b_tmx_tile_selected (g_board g) = Some (1, j) \<longrightarrow> \<not> under_pointer g j \<longrightarrow>
                   tile_alpha s1 j = Some GAME_BOARD_TILE_ALPHA_NORMAL)"
    proof (cases "b_tmx_tile_selected (g_board s)")
      case None
      with bi ho i5 show ?thesis by auto
    next
      case (Some r)
      with twf obtain j0 where r: "r = (1, j0)"
        using tiles_wf_sel by fastforce
      from clear_selected_tile_inv [OF bi ho Some [unfolded r]] obtain s1 where
        "clear_selected_tile s = Inr s1" "board_inv s1" "highlight_only g s1"
        "b_tmx_tile_selected (g_board s1) = None"
        "\<And>i. tile_alpha s1 i = (if i = j0 then Some GAME_BOARD_TILE_ALPHA_NORMAL else tile_alpha s i)"
        by auto
      with Some r i5 show ?thesis by auto
    qed
    then obtain s1 where
      c: "(if b_tmx_tile_selected (g_board s) \<noteq> None then clear_selected_tile s else Inr s) = Inr s1"
      and bi1: "board_inv s1" and ho1: "highlight_only g s1"
      and sel1: "b_tmx_tile_selected (g_board s1) = None"
      and a1: "\<And>j. b_tmx_tile_selected (g_board g) = Some (1, j) \<Longrightarrow> \<not> under_pointer g j \<Longrightarrow>
                 tile_alpha s1 j = Some GAME_BOARD_TILE_ALPHA_NORMAL"
      by blast
    from bi1 obtain ts1 where ts1: "b_tmx_tile_data (g_board s1) 1 = Some ts1"
      by (auto simp: board_inv_def)
    have "k < length ts1"
      using highlight_only_length [OF ho1 ts1 tg] k by simp
    from set_selected_tile_inv [OF bi1 ho1 sel1 ts1 this] obtain s' where
      s': "set_selected_tile (1, k) s1 = Inr s'" and bi': "board_inv s'"
      and ho': "highlight_only g s'" and sel': "b_tmx_tile_selected (g_board s') = Some (1, k)"
      and a': "\<And>i. tile_alpha s' i =
                 (if i = k then Some GAME_BOARD_TILE_ALPHA_SELECTED else tile_alpha s1 i)"
      by auto
    have "highlight_tile (1, k) s = Inr s'"
      using unfold True c s' by simp
    moreover have "highlight_inv g (done @ [(1, k)]) s'"
      unfolding highlight_inv_def using bi' ho' sel' True a' a1 by auto
    ultimately show ?thesis by blast
  next
    case False
    show ?thesis
    proof (cases "b_tmx_tile_selected (g_board s) = Some (1, k)")
      case True
      from clear_selected_tile_inv [OF bi ho True] obtain s' where
        s': "clear_selected_tile s = Inr s'" and bi': "board_inv s'"
        and ho': "highlight_only g s'" and sel': "b_tmx_tile_selected (g_board s') = None"
        and a': "\<And>i. tile_alpha s' i =
                   (if i = k then Some GAME_BOARD_TILE_ALPHA_NORMAL else tile_alpha s i)"
        by auto
      have "highlight_tile (1, k) s = Inr s'"
        using unfold False True s' by simp
      moreover have "\<not> (\<exists>k'. (1, k') \<in> set done \<and> under_pointer g k')"
        using i4 True new by auto
      then have "highlight_inv g (done @ [(1, k)]) s'"
        unfolding highlight_inv_def using bi' ho' sel' False a' i5 True by auto
      ultimately show ?thesis by blast
    next
      case nsel: False
      have "highlight_tile (1, k) s = Inr s"
        using unfold False nsel by simp
      moreover have "highlight_inv g (done @ [(1, k)]) s"
        unfolding highlight_inv_def using bi ho i3 i4 i5 False nsel by auto
      ultimately show ?thesis by blast
    qed
  qed
qed

lemma tiles_of_layer_set: "(l, k) \<in> set (tiles_of_layer l' ts) \<longleftrightarrow> l = l' \<and> k < length ts"
  by (auto simp: tiles_of_layer_def)

lemma tiles_of_layer_distinct: "distinct (tiles_of_layer l ts)"
  by (simp add: tiles_of_layer_def distinct_map inj_on_def)

lemma highlight_inv_start: "board_inv g \<Longrightarrow> highlight_inv g [] g"
  by (simp add: highlight_inv_def highlight_only_refl)

lemma highlight_tiles_inv:
  assumes "board_inv g"
  shows "\<exists>g1. highlight_tiles g = Inr g1 \<and> board_inv g1 \<and> highlight_only g g1
     \<and> (\<forall>k. b_tmx_tile_selected (g_board g1) = Some (1, k) \<longrightarrow> under_pointer g k)
     \<and> ((\<exists>k. under_pointer g k) \<longrightarrow> b_tmx_tile_selected (g_board g1) \<noteq> None)
     \<and> (\<forall>j. b_tmx_tile_selected (g_board g) = Some (1, j) \<longrightarrow> \<not> under_pointer g j \<longrightarrow>
            tile_alpha g1 j = Some GAME_BOARD_TILE_ALPHA_NORMAL)"
proof -
  from assms obtain tg where tg: "b_tmx_tile_data (g_board g) 1 = Some tg"
    by (auto simp: board_inv_def)
  have "\<exists>g1. for_each (tiles_of_layer 1 tg) highlight_tile g = Inr g1
          \<and> highlight_inv g (tiles_of_layer 1 tg) g1"
  proof (rule for_each_total_prefix)
    show "highlight_inv g [] g"
      using assms by (rule highlight_inv_start)
  next
    fix ys x zs s
    assume split: "tiles_of_layer 1 tg = ys @ x # zs" and inv: "highlight_inv g ys s"
    from split have "(fst x, snd x) \<in> set (tiles_of_layer 1 tg)" by simp
    then have "fst x = 1 \<and> snd x < length tg"
      by (simp only: tiles_of_layer_set)
    then obtain k where x: "x = (1, k)" and k: "k < length tg"
      by (metis prod.collapse)
    have "distinct (ys @ x # zs)"
      using tiles_of_layer_distinct [of 1 tg] split by simp
    then have "(1, k) \<notin> set ys" using x by simp
    with inv tg k show "\<exists>s'. highlight_tile x s = Inr s' \<and> highlight_inv g (ys @ [x]) s'"
      unfolding x by (rule highlight_tile_step)
  qed
  then obtain g1 where run: "for_each (tiles_of_layer 1 tg) highlight_tile g = Inr g1"
    and inv: "highlight_inv g (tiles_of_layer 1 tg) g1"
    by blast
  from inv have bi: "board_inv g1" and ho: "highlight_only g g1"
    by (simp_all add: highlight_inv_def)
  from bi obtain ts where ts: "b_tmx_tile_data (g_board g1) 1 = Some ts"
    and twf: "tiles_wf ts (b_tmx_tile_selected (g_board g1))"
    by (auto simp: board_inv_def)
  have len: "length ts = length tg"
    using ho ts tg by (rule highlight_only_length)
  have sel_in: "k < length tg" if "b_tmx_tile_selected (g_board g1) = Some (1, k)" for k
    using twf that len tiles_wf_sel by fastforce
  have up_in: "k < length tg" if "under_pointer g k" for k
    using that tg by (simp add: under_pointer_def)
  have "highlight_tiles g = Inr g1"
    using run tg by (simp add: highlight_tiles_def)
  moreover have "under_pointer g k" if "b_tmx_tile_selected (g_board g1) = Some (1, k)" for k
    using inv that sel_in [OF that] by (simp add: highlight_inv_def tiles_of_layer_set)
  moreover have "b_tmx_tile_selected (g_board g1) \<noteq> None" if "\<exists>k. under_pointer g k"
  proof -
    from inv have "(\<exists>k. k < length tg \<and> under_pointer g k) \<longrightarrow>
        (\<exists>k. k < length tg \<and> b_tmx_tile_selected (g_board g1) = Some (1, k))"
      by (simp add: highlight_inv_def tiles_of_layer_set)
    with that up_in show ?thesis by fastforce
  qed
  moreover have "tile_alpha g1 j = Some GAME_BOARD_TILE_ALPHA_NORMAL"
    if "b_tmx_tile_selected (g_board g) = Some (1, j)" "\<not> under_pointer g j" for j
  proof -
    from inv that have "b_tmx_tile_selected (g_board g1) = Some (1, j)
        \<or> tile_alpha g1 j = Some GAME_BOARD_TILE_ALPHA_NORMAL"
      by (simp add: highlight_inv_def)
    moreover from inv have "b_tmx_tile_selected (g_board g1) = Some (1, j) \<longrightarrow> j < length tg \<longrightarrow>
        under_pointer g j"
      by (simp add: highlight_inv_def tiles_of_layer_set)
    ultimately show ?thesis using that(2) sel_in [of j] by blast
  qed
  ultimately show ?thesis using bi ho by blast
qed

lemma with_pieces_simps [simp]:
  "g_surfaces (with_pieces ps sel g) = g_surfaces g"
  "g_mouse (with_pieces ps sel g) = g_mouse g"
  "g_resources (with_pieces ps sel g) = g_resources g"
  "b_pieces (g_board (with_pieces ps sel g)) = ps"
  "b_piece_selected (g_board (with_pieces ps sel g)) = sel"
  "b_tmx_tile_data (g_board (with_pieces ps sel g)) = b_tmx_tile_data (g_board g)"
  "b_tmx_tile_selected (g_board (with_pieces ps sel g)) = b_tmx_tile_selected (g_board g)"
  "with_pieces ps' sel' (with_pieces ps sel g) = with_pieces ps' sel' g"
  by (simp_all add: with_pieces_def)

lemma clear_selected_piece_Inr:
  assumes "b_piece_selected (g_board g) = Some p" and "p < length (b_pieces (g_board g))"
  shows "clear_selected_piece g =
     Inr (with_pieces ((b_pieces (g_board g))
            [p := (b_pieces (g_board g) ! p)\<lparr>t_selected := False, p_blinking := False\<rparr>]) None g)"
  using assms
  by (simp add: clear_selected_piece_def piece_modify_def with_pieces_def setattr_def
      GamePiece_blinking_def setter_def)

lemma set_selected_piece_Inr:
  assumes "q < length (b_pieces (g_board g))"
  shows "set_selected_piece (Some q) g =
     Inr (with_pieces ((b_pieces (g_board g))[q := (b_pieces (g_board g) ! q)\<lparr>t_selected := True\<rparr>])
            (Some q) g)"
  using assms by (simp add: set_selected_piece_def piece_modify_def with_pieces_def Let_def)

lemma pieces_wf_clear:
  "pieces_wf ps (Some p) n \<Longrightarrow>
   pieces_wf (ps[p := (ps ! p)\<lparr>t_selected := False, p_blinking := False\<rparr>]) None n"
  by (auto simp: pieces_wf_def nth_list_update)

lemma pieces_wf_set:
  "pieces_wf ps None n \<Longrightarrow> q < length ps \<Longrightarrow>
   pieces_wf (ps[q := (ps ! q)\<lparr>t_selected := True\<rparr>]) (Some q) n"
  by (auto simp: pieces_wf_def nth_list_update)

lemma links_wf_piece:
  "links_wf ts ps sel \<Longrightarrow> p_tile pc = p_tile (ps ! p) \<Longrightarrow> links_wf ts (ps[p := pc]) sel"
  by (simp add: links_wf_def nth_update_proj [where f = p_tile])

lemma links_wf_None: "links_wf ts ps sel \<Longrightarrow> links_wf ts ps None"
  by (simp add: links_wf_def)

lemma links_wf_Some:
  "links_wf ts ps sel \<Longrightarrow> k < length ts \<Longrightarrow> t_piece (ts ! k) = Some q \<Longrightarrow> links_wf ts ps (Some q)"
  by (auto simp: links_wf_def)

lemma links_wf_occupant:
  "links_wf ts ps sel \<Longrightarrow> k < length ts \<Longrightarrow> t_piece (ts ! k) = Some q \<Longrightarrow>
   q < length ps \<and> p_tile (ps ! q) = Some (1, k)"
  by (simp add: links_wf_def)

lemma board_inv_pieces:
  assumes "b_tmx_tile_data (g_board g) 1 = Some ts"
    and "tiles_wf ts (b_tmx_tile_selected (g_board g))"
    and "pieces_wf ps sel (length ts)" and "links_wf ts ps sel"
  shows "board_inv (with_pieces ps sel g)"
  using assms by (simp add: board_inv_def)

text \<open>The three conditions, in a state that satisfies the invariant.\<close>

lemma occupant_inner:
  "b_tmx_tile_data (g_board g) 1 = Some ts \<Longrightarrow> k < length ts \<Longrightarrow>
   occupant g (1, k) = t_piece (ts ! k)"
  by (simp add: occupant_def tile_at_def)

lemma conditions_inv:
  assumes "board_inv g"
  shows "switch_condition g =
           Inr (fst (m_pressed (g_mouse g)) \<and> b_piece_selected (g_board g) \<noteq> None
                \<and> (\<exists>r. b_tmx_tile_selected (g_board g) = Some r \<and> occupant g r \<noteq> None))"
    and "select_condition g =
           Inr (press_edge g \<and> b_piece_selected (g_board g) = None
                \<and> (\<exists>r. b_tmx_tile_selected (g_board g) = Some r \<and> occupant g r \<noteq> None))"
    and "move_condition g =
           Inr (press_edge g \<and> b_piece_selected (g_board g) \<noteq> None
                \<and> (\<exists>r. b_tmx_tile_selected (g_board g) = Some r \<and> occupant g r = None))"
proof -
  from assms obtain ts where ts: "b_tmx_tile_data (g_board g) 1 = Some ts"
    and twf: "tiles_wf ts (b_tmx_tile_selected (g_board g))"
    by (auto simp: board_inv_def)
  have t: "tile_at g r = Inr (ts ! snd r)" if "b_tmx_tile_selected (g_board g) = Some r" for r
    using twf that ts tiles_wf_sel [of ts r] by (auto simp: tile_at_def)
  show "switch_condition g =
           Inr (fst (m_pressed (g_mouse g)) \<and> b_piece_selected (g_board g) \<noteq> None
                \<and> (\<exists>r. b_tmx_tile_selected (g_board g) = Some r \<and> occupant g r \<noteq> None))"
    using t by (cases "b_tmx_tile_selected (g_board g)") (auto simp: switch_condition_def occupant_def)
  show "select_condition g =
           Inr (press_edge g \<and> b_piece_selected (g_board g) = None
                \<and> (\<exists>r. b_tmx_tile_selected (g_board g) = Some r \<and> occupant g r \<noteq> None))"
    using t by (cases "b_tmx_tile_selected (g_board g)")
      (auto simp: select_condition_def occupant_def press_edge_def)
  show "move_condition g =
           Inr (press_edge g \<and> b_piece_selected (g_board g) \<noteq> None
                \<and> (\<exists>r. b_tmx_tile_selected (g_board g) = Some r \<and> occupant g r = None))"
    using t by (cases "b_tmx_tile_selected (g_board g)")
      (auto simp: move_condition_def occupant_def press_edge_def)
qed

lemma pieces_wf_lt: "pieces_wf ps (Some p) n \<Longrightarrow> p < length ps"
  by (simp add: pieces_wf_def)

lemma pieces_wf_home: "pieces_wf ps sel n \<Longrightarrow> p < length ps \<Longrightarrow> \<exists>k < n. p_tile (ps ! p) = Some (1, k)"
  by (simp add: pieces_wf_def)

lemma pieces_wf_rect: "pieces_wf ps sel n \<Longrightarrow> p < length ps \<Longrightarrow> \<exists>r. t_rect (ps ! p) = Some r"
  by (auto simp: pieces_wf_def)

lemma pieces_wf_surface: "pieces_wf ps sel n \<Longrightarrow> p < length ps \<Longrightarrow> \<exists>a. t_surface (ps ! p) = Some a"
  by (auto simp: pieces_wf_def)

lemma switch_piece_skips: "switch_condition g = Inr False \<Longrightarrow> switch_piece g = Inr g"
  by (simp add: switch_piece_def)

lemma select_piece_skips: "select_condition g = Inr False \<Longrightarrow> select_piece g = Inr g"
  by (simp add: select_piece_def)

lemma move_piece_skips: "move_condition g = Inr False \<Longrightarrow> move_piece g = Inr g"
  by (simp add: move_piece_def)

lemma tile_selected_piece_inv:
  assumes "b_tmx_tile_data (g_board g) 1 = Some ts" and "b_tmx_tile_selected (g_board g) = Some (1, k)"
    and "k < length ts"
  shows "tile_selected_piece g = Inr (t_piece (ts ! k))"
  using assms by (simp add: tile_selected_piece_def tile_at_def)

lemma switch_piece_fires:
  assumes bi: "board_inv g" and c: "switch_condition g = Inr True"
  shows "\<exists>p r q gc g'.
           b_piece_selected (g_board g) = Some p \<and> b_tmx_tile_selected (g_board g) = Some r
         \<and> occupant g r = Some q
         \<and> clear_selected_piece g = Inr gc \<and> board_inv gc
         \<and> b_piece_selected (g_board gc) = None
         \<and> tile_selected_piece gc = Inr (Some q)
         \<and> set_selected_piece (Some q) gc = Inr g'
         \<and> switch_piece g = Inr g' \<and> board_inv g'
         \<and> b_piece_selected (g_board g') = Some q
         \<and> g' = with_pieces (b_pieces (g_board g')) (Some q) g"
proof -
  from bi obtain ts where ts: "b_tmx_tile_data (g_board g) 1 = Some ts"
    and twf: "tiles_wf ts (b_tmx_tile_selected (g_board g))"
    and pwf: "pieces_wf (b_pieces (g_board g)) (b_piece_selected (g_board g)) (length ts)"
    and lwf: "links_wf ts (b_pieces (g_board g)) (b_piece_selected (g_board g))"
    by (auto simp: board_inv_def)
  let ?ps = "b_pieces (g_board g)"
  from c conditions_inv(1) [OF bi] obtain p r q where
    p: "b_piece_selected (g_board g) = Some p" and r: "b_tmx_tile_selected (g_board g) = Some r"
    and q: "occupant g r = Some q"
    by auto
  from twf r obtain k where k: "r = (1, k)" "k < length ts"
    by (metis tiles_wf_sel)
  from q k ts have tq: "t_piece (ts ! k) = Some q"
    by (simp add: occupant_inner)
  from pwf p have plt: "p < length ?ps"
    by (simp add: pieces_wf_lt)
  from lwf k tq have qlt: "q < length ?ps"
    using links_wf_occupant by blast
  let ?pc = "?ps[p := (?ps ! p)\<lparr>t_selected := False, p_blinking := False\<rparr>]"
  let ?gc = "with_pieces ?pc None g"
  let ?pq = "?pc[q := (?pc ! q)\<lparr>t_selected := True\<rparr>]"
  let ?g' = "with_pieces ?pq (Some q) g"
  have gc: "clear_selected_piece g = Inr ?gc"
    using p plt by (rule clear_selected_piece_Inr)
  have pwfc: "pieces_wf ?pc None (length ts)"
    using pwf p by (simp add: pieces_wf_clear)
  have lwfc: "links_wf ts ?pc None"
  proof -
    have "links_wf ts ?ps None"
      using lwf by (rule links_wf_None)
    then show ?thesis by (rule links_wf_piece) simp
  qed
  have bic: "board_inv ?gc"
    using ts twf pwfc lwfc by (rule board_inv_pieces)
  have tsp: "tile_selected_piece ?gc = Inr (Some q)"
    using tile_selected_piece_inv [of ?gc ts k] ts r k tq by simp
  have g': "set_selected_piece (Some q) ?gc = Inr ?g'"
    using set_selected_piece_Inr [of q ?gc] qlt by simp
  have "pieces_wf ?pq (Some q) (length ts)"
    using pwfc qlt by (simp add: pieces_wf_set)
  moreover have "links_wf ts ?pq (Some q)"
  proof -
    have "links_wf ts ?pc (Some q)"
      using lwfc k(2) tq by (rule links_wf_Some)
    then show ?thesis by (rule links_wf_piece) simp
  qed
  ultimately have bi': "board_inv ?g'"
    using ts twf by (intro board_inv_pieces)
  have "switch_piece g = Inr ?g'"
    using c gc tsp g' by (simp add: switch_piece_def)
  with p r q gc bic tsp g' bi' show ?thesis
    by (intro exI [of _ p] exI [of _ r] exI [of _ q] exI [of _ ?gc] exI [of _ ?g']) simp
qed

lemma select_piece_fires:
  assumes bi: "board_inv g" and c: "select_condition g = Inr True"
  shows "\<exists>r q g'.
           b_piece_selected (g_board g) = None \<and> b_tmx_tile_selected (g_board g) = Some r
         \<and> occupant g r = Some q
         \<and> select_piece g = Inr g' \<and> board_inv g'
         \<and> b_piece_selected (g_board g') = Some q
         \<and> g' = with_pieces (b_pieces (g_board g')) (Some q) g"
proof -
  from bi obtain ts where ts: "b_tmx_tile_data (g_board g) 1 = Some ts"
    and twf: "tiles_wf ts (b_tmx_tile_selected (g_board g))"
    and pwf: "pieces_wf (b_pieces (g_board g)) (b_piece_selected (g_board g)) (length ts)"
    and lwf: "links_wf ts (b_pieces (g_board g)) (b_piece_selected (g_board g))"
    by (auto simp: board_inv_def)
  let ?ps = "b_pieces (g_board g)"
  from c conditions_inv(2) [OF bi] obtain r q where
    p: "b_piece_selected (g_board g) = None" and r: "b_tmx_tile_selected (g_board g) = Some r"
    and q: "occupant g r = Some q"
    by auto
  from twf r obtain k where k: "r = (1, k)" "k < length ts"
    by (metis tiles_wf_sel)
  from q k ts have tq: "t_piece (ts ! k) = Some q"
    by (simp add: occupant_inner)
  from lwf k tq have qlt: "q < length ?ps"
    using links_wf_occupant by blast
  let ?pq = "?ps[q := (?ps ! q)\<lparr>t_selected := True\<rparr>]"
  let ?g' = "with_pieces ?pq (Some q) g"
  have tsp: "tile_selected_piece g = Inr (Some q)"
    using tile_selected_piece_inv [of g ts k] ts r k tq by simp
  have g': "set_selected_piece (Some q) g = Inr ?g'"
    using qlt by (rule set_selected_piece_Inr)
  have "pieces_wf ?pq (Some q) (length ts)"
    using pwf p qlt by (simp add: pieces_wf_set)
  moreover have "links_wf ts ?pq (Some q)"
  proof -
    have "links_wf ts ?ps (Some q)"
      using lwf k(2) tq by (rule links_wf_Some)
    then show ?thesis by (rule links_wf_piece) simp
  qed
  ultimately have bi': "board_inv ?g'"
    using ts twf by (intro board_inv_pieces)
  have "select_piece g = Inr ?g'"
    using c tsp g' by (simp add: select_piece_def)
  with p r q bi' show ?thesis
    by (intro exI [of _ r] exI [of _ q] exI [of _ ?g']) simp
qed

lemma move_selected_piece_Inr:
  assumes "b_tmx_tile_data (g_board g) 1 = Some ts" and "k < length ts"
    and "p < length (b_pieces (g_board g))" and "t_rect (b_pieces (g_board g) ! p) = Some rc"
    and "p_tile (b_pieces (g_board g) ! p) = Some (1, k0)" and "k0 < length ts"
    and "b_piece_selected (g_board g) = Some p"
  shows "move_selected_piece p (1, k) g =
     Inr (with_pieces
            ((b_pieces (g_board g))[p := moved_piece (b_pieces (g_board g) ! p) (ts ! k) (1, k)])
            None
            (g\<lparr>g_board := (g_board g)\<lparr>b_tmx_tile_data :=
                 (b_tmx_tile_data (g_board g))(1 \<mapsto> moved_tiles ts k0 k p)\<rparr>\<rparr>))"
  using assms
  by (simp add: move_selected_piece_def tile_at_def tile_modify_def piece_at_def piece_modify_def
      x_setter_def y_setter_def clear_selected_piece_def setattr_def GamePiece_blinking_def
      setter_def with_pieces_def moved_piece_def moved_tiles_def)

lemma tiles_wf_piece_update:
  "tiles_wf ts sel \<Longrightarrow> tiles_wf (ts[k := (ts ! k)\<lparr>t_piece := x\<rparr>]) sel"
  by (cases "k < length ts")
    (simp_all add: tiles_wf_def nth_update_proj [where f = t_rect]
      nth_update_proj [where f = t_surface] nth_update_proj [where f = t_selected]
      map_update_same list_update_beyond)

lemma tiles_wf_moved: "tiles_wf ts sel \<Longrightarrow> tiles_wf (moved_tiles ts k0 k p) sel"
  unfolding moved_tiles_def by (intro tiles_wf_piece_update)

lemma length_moved_tiles [simp]: "length (moved_tiles ts k0 k p) = length ts"
  by (simp add: moved_tiles_def)

lemma t_piece_moved_tiles:
  "k < length ts \<Longrightarrow> j < length ts \<Longrightarrow>
   t_piece (moved_tiles ts k0 k p ! j) =
     (if j = k then Some p else if j = k0 then None else t_piece (ts ! j))"
  by (auto simp: moved_tiles_def nth_list_update)

lemma pieces_wf_moved:
  assumes "pieces_wf ps (Some p) n" and "k < n"
  shows "pieces_wf (ps[p := moved_piece (ps ! p) t (1, k)]) None n"
  using assms by (auto simp: pieces_wf_def nth_list_update moved_piece_def)

lemma links_wf_moved:
  assumes lwf: "links_wf ts ps sel" and p: "p < length ps"
    and home: "p_tile (ps ! p) = Some (1, k0)" and k: "k < length ts"
  shows "links_wf (moved_tiles ts k0 k p) (ps[p := moved_piece (ps ! p) t (1, k)]) None"
proof -
  have "q < length ps \<and> p_tile (ps[p := moved_piece (ps ! p) t (1, k)] ! q) = Some (1, j)"
    if j: "j < length ts" and occ: "t_piece (moved_tiles ts k0 k p ! j) = Some q" for j q
  proof (cases "j = k")
    case True
    with occ j k have "q = p" by (simp add: t_piece_moved_tiles)
    with True p show ?thesis by (simp add: moved_piece_def)
  next
    case False
    with occ j k have nk0: "j \<noteq> k0" and old: "t_piece (ts ! j) = Some q"
      by (auto simp: t_piece_moved_tiles split: if_splits)
    from lwf j old have q: "q < length ps" "p_tile (ps ! q) = Some (1, j)"
      by (simp_all add: links_wf_def)
    with home nk0 have "q \<noteq> p" by auto
    with q show ?thesis by simp
  qed
  then show ?thesis by (simp add: links_wf_def)
qed

lemma move_piece_fires:
  assumes bi: "board_inv g" and c: "move_condition g = Inr True"
  shows "\<exists>p k k0 ts g'.
           b_piece_selected (g_board g) = Some p \<and> b_tmx_tile_selected (g_board g) = Some (1, k)
         \<and> b_tmx_tile_data (g_board g) 1 = Some ts \<and> k < length ts \<and> k0 < length ts
         \<and> p < length (b_pieces (g_board g))
         \<and> p_tile (b_pieces (g_board g) ! p) = Some (1, k0)
         \<and> t_piece (ts ! k0) = Some p \<and> t_piece (ts ! k) = None
         \<and> move_piece g = Inr g' \<and> board_inv g'
         \<and> g' = with_pieces
                  ((b_pieces (g_board g))[p := moved_piece (b_pieces (g_board g) ! p) (ts ! k) (1, k)])
                  None
                  (g\<lparr>g_board := (g_board g)\<lparr>b_tmx_tile_data :=
                       (b_tmx_tile_data (g_board g))(1 \<mapsto> moved_tiles ts k0 k p)\<rparr>\<rparr>)"
proof -
  from bi obtain ts where ts: "b_tmx_tile_data (g_board g) 1 = Some ts"
    and twf: "tiles_wf ts (b_tmx_tile_selected (g_board g))"
    and pwf: "pieces_wf (b_pieces (g_board g)) (b_piece_selected (g_board g)) (length ts)"
    and lwf: "links_wf ts (b_pieces (g_board g)) (b_piece_selected (g_board g))"
    by (auto simp: board_inv_def)
  let ?ps = "b_pieces (g_board g)"
  from c conditions_inv(3) [OF bi] obtain p r where
    p: "b_piece_selected (g_board g) = Some p" and r: "b_tmx_tile_selected (g_board g) = Some r"
    and e: "occupant g r = None"
    by auto
  from twf r obtain k where k: "r = (1, k)" "k < length ts"
    by (metis tiles_wf_sel)
  from e k ts have te: "t_piece (ts ! k) = None"
    by (simp add: occupant_inner)
  from pwf p have plt: "p < length ?ps"
    by (simp add: pieces_wf_lt)
  from lwf p obtain k0 where k0: "k0 < length ts" "p_tile (?ps ! p) = Some (1, k0)"
    "t_piece (ts ! k0) = Some p"
    by (auto simp: links_wf_def)
  from pwf plt obtain rc where rc: "t_rect (?ps ! p) = Some rc"
    using pieces_wf_rect by blast
  let ?g' = "with_pieces (?ps[p := moved_piece (?ps ! p) (ts ! k) (1, k)]) None
               (g\<lparr>g_board := (g_board g)\<lparr>b_tmx_tile_data :=
                    (b_tmx_tile_data (g_board g))(1 \<mapsto> moved_tiles ts k0 k p)\<rparr>\<rparr>)"
  have "move_selected_piece p (1, k) g = Inr ?g'"
    using ts k(2) plt rc k0(2) k0(1) p by (rule move_selected_piece_Inr)
  then have run: "move_piece g = Inr ?g'"
    using c p r k by (simp add: move_piece_def)
  have "board_inv ?g'"
  proof (rule board_inv_pieces)
    show "b_tmx_tile_data (g_board (g\<lparr>g_board := (g_board g)\<lparr>b_tmx_tile_data :=
            (b_tmx_tile_data (g_board g))(1 \<mapsto> moved_tiles ts k0 k p)\<rparr>\<rparr>)) 1
          = Some (moved_tiles ts k0 k p)"
      by simp
    show "tiles_wf (moved_tiles ts k0 k p)
            (b_tmx_tile_selected (g_board (g\<lparr>g_board := (g_board g)\<lparr>b_tmx_tile_data :=
               (b_tmx_tile_data (g_board g))(1 \<mapsto> moved_tiles ts k0 k p)\<rparr>\<rparr>)))"
      using twf by (simp add: tiles_wf_moved)
    show "pieces_wf (?ps[p := moved_piece (?ps ! p) (ts ! k) (1, k)]) None
            (length (moved_tiles ts k0 k p))"
      using pwf p k(2) by (simp add: pieces_wf_moved)
    show "links_wf (moved_tiles ts k0 k p) (?ps[p := moved_piece (?ps ! p) (ts ! k) (1, k)]) None"
      using lwf plt k0(2) k(2) by (rule links_wf_moved)
  qed
  with run p r k k0 ts te plt show ?thesis
    by (intro exI [of _ p] exI [of _ k] exI [of _ k0] exI [of _ ts] exI [of _ ?g']) simp
qed

lemma blink_only_refl: "blink_only g g"
  by (simp add: blink_only_def)

lemma blink_only_length:
  "blink_only g s \<Longrightarrow> length (b_pieces (g_board s)) = length (b_pieces (g_board g))"
  unfolding blink_only_def using map_eq_imp_length_eq by blast

lemma blink_only_piece:
  assumes "blink_only g s" and "p < length (b_pieces (g_board g))"
  shows "(b_pieces (g_board s) ! p)\<lparr>p_blinking := False\<rparr>
         = (b_pieces (g_board g) ! p)\<lparr>p_blinking := False\<rparr>"
proof -
  have len: "p < length (b_pieces (g_board s))"
    using assms by (simp add: blink_only_length)
  have "map (\<lambda>pc. pc\<lparr>p_blinking := False\<rparr>) (b_pieces (g_board s)) ! p
        = map (\<lambda>pc. pc\<lparr>p_blinking := False\<rparr>) (b_pieces (g_board g)) ! p"
    using assms(1) by (simp add: blink_only_def)
  then show ?thesis using len assms(2) by simp
qed

lemma GamePiece_tick_eq:
  "t_surface pc = Some a \<Longrightarrow>
   GamePiece_tick pc h =
     Inr (pc\<lparr>p_blinking := (t_selected pc \<noteq> p_blinking pc)\<rparr>,
          set_alpha a (if t_selected pc \<noteq> p_blinking pc then GAME_BOARD_TILE_ALPHA_SELECTED
                       else GAME_BOARD_TILE_ALPHA_NORMAL) h)"
  by (cases "t_selected pc"; cases "p_blinking pc") (simp_all add: GamePiece_tick_def Let_def)

lemma GamePiece_tick_Inr:
  "t_surface pc = Some a \<Longrightarrow>
   \<exists>b h'. GamePiece_tick pc h = Inr (pc\<lparr>p_blinking := b\<rparr>, h')"
  using GamePiece_tick_eq by blast

lemma tick_piece_inv:
  assumes bi: "board_inv s" and bo: "blink_only g s" and p: "p < length (b_pieces (g_board s))"
  shows "\<exists>s'. tick_piece p s = Inr s' \<and> board_inv s' \<and> blink_only g s'"
proof -
  from bi obtain ts where ts: "b_tmx_tile_data (g_board s) 1 = Some ts"
    and twf: "tiles_wf ts (b_tmx_tile_selected (g_board s))"
    and pwf: "pieces_wf (b_pieces (g_board s)) (b_piece_selected (g_board s)) (length ts)"
    and lwf: "links_wf ts (b_pieces (g_board s)) (b_piece_selected (g_board s))"
    by (auto simp: board_inv_def)
  let ?ps = "b_pieces (g_board s)"
  from pwf p obtain a where "t_surface (?ps ! p) = Some a"
    using pieces_wf_surface by blast
  then obtain b h' where t: "GamePiece_tick (?ps ! p) (g_surfaces s) = Inr ((?ps ! p)\<lparr>p_blinking := b\<rparr>, h')"
    using GamePiece_tick_Inr by blast
  let ?s' = "(with_pieces (?ps[p := (?ps ! p)\<lparr>p_blinking := b\<rparr>]) (b_piece_selected (g_board s)) s)
               \<lparr>g_surfaces := h'\<rparr>"
  have run: "tick_piece p s = Inr ?s'"
    using p t by (simp add: tick_piece_def piece_at_def piece_modify_def with_pieces_def)
  have "pieces_wf (?ps[p := (?ps ! p)\<lparr>p_blinking := b\<rparr>]) (b_piece_selected (g_board s)) (length ts)"
    using pwf
    by (simp add: pieces_wf_def nth_update_proj [where f = t_rect]
        nth_update_proj [where f = t_surface] nth_update_proj [where f = t_selected]
        nth_update_proj [where f = p_tile])
  moreover have "links_wf ts (?ps[p := (?ps ! p)\<lparr>p_blinking := b\<rparr>]) (b_piece_selected (g_board s))"
    using lwf by (rule links_wf_piece) simp
  ultimately have "board_inv ?s'"
    using ts twf by (simp add: board_inv_def)
  moreover have "blink_only g ?s'"
    using bo p by (simp add: blink_only_def map_update_same)
  ultimately show ?thesis using run by blast
qed

lemma tick_pieces_inv:
  assumes "board_inv g"
  shows "\<exists>g'. tick_pieces g = Inr g' \<and> board_inv g' \<and> blink_only g g'"
proof -
  have "\<exists>g'. for_each [0..<length (b_pieces (g_board g))] tick_piece g = Inr g'
          \<and> (board_inv g' \<and> blink_only g g')"
  proof (rule for_each_total)
    show "board_inv g \<and> blink_only g g"
      using assms by (simp add: blink_only_refl)
  next
    fix p s
    assume "p \<in> set [0..<length (b_pieces (g_board g))]" and "board_inv s \<and> blink_only g s"
    then show "\<exists>s'. tick_piece p s = Inr s' \<and> (board_inv s' \<and> blink_only g s')"
      using tick_piece_inv [of s g p] by (auto simp: blink_only_length)
  qed
  then show ?thesis by (simp add: tick_pieces_def)
qed

text \<open>The whole tick.\<close>

lemma switch_piece_inv:
  assumes "board_inv g"
  shows "\<exists>g'. switch_piece g = Inr g' \<and> board_inv g'"
proof -
  from conditions_inv(1) [OF assms] obtain c where c: "switch_condition g = Inr c" by blast
  show ?thesis
  proof (cases c)
    case True
    with c have "switch_condition g = Inr True" by simp
    from switch_piece_fires [OF assms this] show ?thesis by blast
  next
    case False
    with c assms show ?thesis by (simp add: switch_piece_skips)
  qed
qed

lemma select_piece_inv:
  assumes "board_inv g"
  shows "\<exists>g'. select_piece g = Inr g' \<and> board_inv g'"
proof -
  from conditions_inv(2) [OF assms] obtain c where c: "select_condition g = Inr c" by blast
  show ?thesis
  proof (cases c)
    case True
    with c have "select_condition g = Inr True" by simp
    from select_piece_fires [OF assms this] show ?thesis by blast
  next
    case False
    with c assms show ?thesis by (simp add: select_piece_skips)
  qed
qed

lemma move_piece_inv:
  assumes "board_inv g"
  shows "\<exists>g'. move_piece g = Inr g' \<and> board_inv g'"
proof -
  from conditions_inv(3) [OF assms] obtain c where c: "move_condition g = Inr c" by blast
  show ?thesis
  proof (cases c)
    case True
    with c have "move_condition g = Inr True" by simp
    from move_piece_fires [OF assms this] show ?thesis by blast
  next
    case False
    with c assms show ?thesis by (simp add: move_piece_skips)
  qed
qed

lemma GameBoard_tick_inv:
  assumes "board_inv g"
  shows "\<exists>g'. GameBoard_tick g = Inr g' \<and> board_inv g'"
proof -
  from highlight_tiles_inv [OF assms] obtain g1 where
    g1: "highlight_tiles g = Inr g1" "board_inv g1" by blast
  from switch_piece_inv [OF g1(2)] obtain g2 where
    g2: "switch_piece g1 = Inr g2" "board_inv g2" by blast
  from select_piece_inv [OF g2(2)] obtain g3 where
    g3: "select_piece g2 = Inr g3" "board_inv g3" by blast
  from move_piece_inv [OF g3(2)] obtain g4 where
    g4: "move_piece g3 = Inr g4" "board_inv g4" by blast
  from tick_pieces_inv [OF g4(2)] obtain g5 where
    g5: "tick_pieces g4 = Inr g5" "board_inv g5" by blast
  from g1 g2 g3 g4 g5 show ?thesis
    by (simp add: GameBoard_tick_def)
qed

lemma board_inv_mouse: "board_inv (g\<lparr>g_mouse := m\<rparr>) = board_inv g"
  by (simp add: board_inv_def)

lemma Game_tick_inv:
  assumes "board_inv g"
  shows "\<exists>g'. Game_tick buttons position g = Inr g' \<and> board_inv g'"
  unfolding Game_tick_def using assms by (intro GameBoard_tick_inv) (simp add: board_inv_mouse)

lemma setup_inv_board_inv:
  "setup_inv s \<Longrightarrow> b_tmx_tile_data (g_board s) 1 = Some ts \<Longrightarrow> board_inv s"
  by (simp add: setup_inv_def board_inv_def)

lemma tiles_wf_append:
  assumes "tiles_wf ts None" and "\<forall>k < length ts. \<exists>a < n. t_surface (ts ! k) = Some a"
    and "t_surface t = Some n" and "t_rect t \<noteq> None" and "\<not> t_selected t"
  shows "tiles_wf (ts @ [t]) None"
proof -
  have "Some n \<notin> set (map t_surface ts)"
  proof
    assume "Some n \<in> set (map t_surface ts)"
    then obtain k where "k < length ts" "t_surface (ts ! k) = Some n"
      by (auto simp: in_set_conv_nth)
    with assms(2) show False by fastforce
  qed
  with assms show ?thesis
    by (auto simp: tiles_wf_def nth_append)
qed

lemma pieces_wf_mono: "pieces_wf ps sel n \<Longrightarrow> n \<le> m \<Longrightarrow> pieces_wf ps sel m"
  by (fastforce simp: pieces_wf_def)

lemma links_wf_append_tile:
  "links_wf ts ps None \<Longrightarrow> t_piece t = None \<Longrightarrow> links_wf (ts @ [t]) ps None"
  by (auto simp: links_wf_def nth_append)

lemma place_tile_setup_inv:
  assumes "place_tile x y layer surface s = Inr s'" and "setup_inv s"
  shows "setup_inv s'"
proof -
  from assms(1) obtain ts where ts: "b_tmx_tile_data (g_board s) layer = Some ts"
    by (auto simp: place_tile_def split: option.splits)
  let ?h = "snd (Surface_new surface (g_surfaces s))"
  let ?t = "GameTile_init\<lparr>t_index := length ts + 1, t_surface := Some (next_addr (g_surfaces s)),
              t_rect := Some ((get_rect surface)\<lparr>r_x := int x * GAME_BOARD_TILE_WIDTH,
                                r_y := int y * GAME_BOARD_TILE_HEIGHT\<rparr>),
              t_x := int x * GAME_BOARD_TILE_WIDTH, t_y := int y * GAME_BOARD_TILE_HEIGHT,
              t_layer := layer\<rparr>"
  from assms(1) ts have s': "s' = s\<lparr>g_surfaces := ?h,
      g_board := (g_board s)\<lparr>b_tmx_tile_data := (b_tmx_tile_data (g_board s))(layer \<mapsto> ts @ [?t])\<rparr>\<rparr>"
    by (auto simp: place_tile_def Surface_new_def surface_setter_def x_setter_def y_setter_def
        Let_def GameTile_init_def)
  have n: "next_addr ?h = Suc (next_addr (g_surfaces s))"
    by (simp add: Surface_new_def)
  show ?thesis
  proof (cases "layer = 1")
    case True
    with ts assms(2) have twf: "tiles_wf ts None"
      and bound: "\<forall>k < length ts. \<exists>a < next_addr (g_surfaces s). t_surface (ts ! k) = Some a"
      and pwf: "pieces_wf (b_pieces (g_board s)) None (length ts)"
      and lwf: "links_wf ts (b_pieces (g_board s)) None"
      by (simp_all add: setup_inv_def)
    have "tiles_wf (ts @ [?t]) None"
      using twf bound by (rule tiles_wf_append) (simp_all add: GameTile_init_def)
    moreover have "\<forall>k < length (ts @ [?t]). \<exists>a < next_addr ?h. t_surface ((ts @ [?t]) ! k) = Some a"
      using bound n by (auto simp: nth_append less_Suc_eq)
    moreover have "pieces_wf (b_pieces (g_board s)) None (length (ts @ [?t]))"
      using pwf by (rule pieces_wf_mono) simp
    moreover have "links_wf (ts @ [?t]) (b_pieces (g_board s)) None"
      using lwf by (rule links_wf_append_tile) (simp add: GameTile_init_def)
    ultimately show ?thesis
      using assms(2) True unfolding s' setup_inv_def by simp
  next
    case False
    have "\<exists>a < Suc n. P a" if "\<exists>a < n. P a" for n :: nat and P
      using that less_Suc_eq by auto
    with assms(2) False show ?thesis
      unfolding s' setup_inv_def n by (simp add: n)
  qed
qed

lemma tiles_wf_update:
  assumes "tiles_wf ts sel" and "t_surface t = t_surface (ts ! k)"
    and "t_selected t = t_selected (ts ! k)" and "t_rect t \<noteq> None"
  shows "tiles_wf (ts[k := t]) sel"
proof (cases "k < length ts")
  case True
  with assms show ?thesis
    by (auto simp: tiles_wf_def nth_list_update map_update_same)
next
  case False
  with assms(1) show ?thesis by (simp add: list_update_beyond)
qed

lemma links_wf_tile_update:
  "links_wf ts ps sel \<Longrightarrow> t_piece t = t_piece (ts ! k) \<Longrightarrow> links_wf (ts[k := t]) ps sel"
  by (simp add: links_wf_def nth_update_proj [where f = t_piece])

lemma tile_modify_partial:
  assumes "tile_modify r f s = Inr s'"
  obtains ts t where "b_tmx_tile_data (g_board s) (fst r) = Some ts" and "snd r < length ts"
    and "f (ts ! snd r) = Inr t"
    and "s' = s\<lparr>g_board := (g_board s)\<lparr>b_tmx_tile_data :=
                 (b_tmx_tile_data (g_board s))(fst r \<mapsto> ts[snd r := t])\<rparr>\<rparr>"
  using assms
  by (auto simp: tile_modify_def and_then_eq_Inr split: option.splits if_splits)

lemma tile_modify_setup_inv:
  assumes run: "tile_modify r f s = Inr s'" and inv: "setup_inv_n n s"
    and keep: "\<And>t t'. f t = Inr t' \<Longrightarrow>
       t_surface t' = t_surface t \<and> t_selected t' = t_selected t \<and> t_piece t' = t_piece t
       \<and> t_rect t' \<noteq> None"
  shows "setup_inv_n n s'"
proof -
  from run obtain ts t where ts: "b_tmx_tile_data (g_board s) (fst r) = Some ts"
    and k: "snd r < length ts" and t: "f (ts ! snd r) = Inr t"
    and s': "s' = s\<lparr>g_board := (g_board s)\<lparr>b_tmx_tile_data :=
                 (b_tmx_tile_data (g_board s))(fst r \<mapsto> ts[snd r := t])\<rparr>\<rparr>"
    by (rule tile_modify_partial)
  note kp = keep [OF t]
  show ?thesis
  proof (cases "fst r = 1")
    case True
    with ts inv have twf: "tiles_wf ts None"
      and bound: "\<forall>k < length ts. \<exists>a < next_addr (g_surfaces s). t_surface (ts ! k) = Some a"
      and pwf: "pieces_wf (b_pieces (g_board s)) None (length ts)"
      and lwf: "links_wf ts (b_pieces (g_board s)) None" and len: "length ts = n"
      by (auto simp: setup_inv_n_def setup_inv_def)
    have "tiles_wf (ts[snd r := t]) None"
      using twf kp by (intro tiles_wf_update) simp_all
    moreover have "links_wf (ts[snd r := t]) (b_pieces (g_board s)) None"
      using lwf kp by (intro links_wf_tile_update) simp_all
    moreover have "\<forall>k < length ts. \<exists>a < next_addr (g_surfaces s). t_surface (ts[snd r := t] ! k) = Some a"
      using bound kp by (simp add: nth_update_proj [where f = t_surface])
    ultimately show ?thesis
      using inv True pwf len unfolding s' setup_inv_n_def setup_inv_def by simp
  next
    case False
    with inv show ?thesis
      unfolding s' setup_inv_n_def setup_inv_def by simp
  qed
qed

lemma x_setter_keeps:
  "x_setter v t = Inr t' \<Longrightarrow>
   t_surface t' = t_surface t \<and> t_selected t' = t_selected t \<and> t_piece t' = t_piece t
   \<and> t_rect t' \<noteq> None"
  by (auto simp: x_setter_def split: option.splits)

lemma y_setter_keeps:
  "y_setter v t = Inr t' \<Longrightarrow>
   t_surface t' = t_surface t \<and> t_selected t' = t_selected t \<and> t_piece t' = t_piece t
   \<and> t_rect t' \<noteq> None"
  by (auto simp: y_setter_def split: option.splits)

lemma setup_inv_surfaces:
  "setup_inv_n n s \<Longrightarrow> next_addr (g_surfaces s) \<le> next_addr h \<Longrightarrow>
   setup_inv_n n (s\<lparr>g_surfaces := h\<rparr>)"
proof -
  assume le: "next_addr (g_surfaces s) \<le> next_addr h"
  have "\<exists>a < next_addr h. P a" if "\<exists>a < next_addr (g_surfaces s). P a" for P
    using that le less_le_trans by blast
  moreover assume "setup_inv_n n s"
  ultimately show ?thesis
    unfolding setup_inv_n_def setup_inv_def by simp
qed

lemma links_wf_place:
  assumes "links_wf ts ps None" and "k < length ts" and "p_tile pc = Some (1, k)"
  shows "links_wf (ts[k := (ts ! k)\<lparr>t_piece := Some (length ps)\<rparr>]) (ps @ [pc]) None"
  using assms by (auto simp: links_wf_def nth_list_update nth_append)

lemma pieces_wf_place:
  assumes "pieces_wf ps None n" and "k < n" and "p_tile pc = Some (1, k)"
    and "t_rect pc \<noteq> None" and "t_surface pc \<noteq> None" and "\<not> t_selected pc"
  shows "pieces_wf (ps @ [pc]) None n"
  using assms by (auto simp: pieces_wf_def nth_append less_Suc_eq)

lemma place_piece_setup_inv:
  assumes run: "place_piece (1, k) a s = Inr s'" and inv: "setup_inv_n n s"
  shows "setup_inv_n n s'"
proof -
  from inv obtain ts where ts: "b_tmx_tile_data (g_board s) 1 = Some ts" and len: "length ts = n"
    by (auto simp: setup_inv_n_def)
  from run ts have k: "k < length ts"
    by (auto simp: place_piece_def Let_def tile_at_def and_then_eq_Inr split: if_splits)
  from ts inv have twf: "tiles_wf ts None"
    and bound: "\<forall>k < length ts. \<exists>a < next_addr (g_surfaces s). t_surface (ts ! k) = Some a"
    and pwf: "pieces_wf (b_pieces (g_board s)) None (length ts)"
    and lwf: "links_wf ts (b_pieces (g_board s)) None"
    by (auto simp: setup_inv_n_def setup_inv_def)
  let ?ps = "b_pieces (g_board s)"
  let ?pc = "\<lparr>t_index = length ?ps + 1, t_surface = Some a,
              t_rect = Some ((get_rect (store (g_surfaces s) a))\<lparr>r_x := t_x (ts ! k), r_y := t_y (ts ! k)\<rparr>),
              t_x = t_x (ts ! k), t_y = t_y (ts ! k), t_layer = 0, t_selected = False,
              t_piece = None, p_tile = Some (1, k), p_blinking = False\<rparr>"
  from run ts k have s': "s' = s\<lparr>g_board := (g_board s)\<lparr>b_pieces := ?ps @ [?pc],
      b_tmx_tile_data := (b_tmx_tile_data (g_board s))
        (1 \<mapsto> ts[k := (ts ! k)\<lparr>t_piece := Some (length ?ps)\<rparr>])\<rparr>\<rparr>"
    by (auto simp: place_piece_def Let_def tile_at_def tile_modify_def piece_modify_def
        x_setter_def y_setter_def surface_setter_def GamePiece_init_def)
  have "tiles_wf (ts[k := (ts ! k)\<lparr>t_piece := Some (length ?ps)\<rparr>]) None"
    using twf by (rule tiles_wf_piece_update)
  moreover have "links_wf (ts[k := (ts ! k)\<lparr>t_piece := Some (length ?ps)\<rparr>]) (?ps @ [?pc]) None"
    using lwf k by (rule links_wf_place) simp
  moreover have "pieces_wf (?ps @ [?pc]) None (length ts)"
    using pwf k by (rule pieces_wf_place) simp_all
  moreover have "\<forall>j < length ts. \<exists>b < next_addr (g_surfaces s).
      t_surface (ts[k := (ts ! k)\<lparr>t_piece := Some (length ?ps)\<rparr>] ! j) = Some b"
    using bound by (simp add: nth_update_proj [where f = t_surface])
  ultimately show ?thesis
    using inv len unfolding s' setup_inv_n_def setup_inv_def by simp
qed

lemma choice_in_set: "choice n xs = Inr x \<Longrightarrow> x \<in> set xs"
  by (auto simp: choice_def split: if_splits)

lemma get_image_next_addr:
  "get_image r name h = Inr (a, h') \<Longrightarrow> next_addr h \<le> next_addr h'"
  by (auto simp: get_image_def Surface_copy_def Surface_new_def split: option.splits)

lemma GameBoard_setup_inv:
  assumes run: "GameBoard_setup rnd s0 = Inr g" and inv: "setup_inv s0"
  shows "board_inv g"
proof -
  let ?tiles = "\<lambda>(x, y, layer) g.
             case get_tile_image (b_tmx_data (g_board g)) x y layer of
               None \<Rightarrow> Inr g
             | Some surface \<Rightarrow> place_tile x y layer surface g"
  from run obtain s1 where
    s1: "for_each (cells (b_tmx_data (g_board s0))) ?tiles s0 = Inr s1"
    and rest: "(case b_tmx_tile_data (g_board s1) 0 of
            None \<Rightarrow> Inl KeyError
          | Some outer \<Rightarrow>
         (case b_tmx_tile_data (g_board s1) 1 of
            None \<Rightarrow> Inl KeyError
          | Some inner \<Rightarrow>
              let outer_tiles = tiles_of_layer 0 outer;
                  inner_tiles = tiles_of_layer 1 inner;
                  all_tiles = outer_tiles @ inner_tiles;
                  x_modd = int (length all_tiles) + GAME_BOARD_TILE_WIDTH;
                  y_modd = int (length all_tiles) + GAME_BOARD_TILE_HEIGHT
              in and_then
                   (for_each all_tiles
                      (\<lambda>tile g.
                         and_then
                           (tile_modify tile (\<lambda>t. x_setter (t_x t + (b_x (g_board g) - x_modd)) t) g)
                           (\<lambda>g. tile_modify tile (\<lambda>t. y_setter (t_y t + (b_y (g_board g) - y_modd)) t) g))
                      s1)
                   (for_each [0..<GAME_BOARD_NUM_PIECES]
                      (\<lambda>index g.
                         and_then (choice (rnd index) inner_tiles) (\<lambda>tile.
                         and_then (get_image (g_resources g) ''piece_black'' (g_surfaces g))
                           (\<lambda>(surface, h). place_piece tile surface (g\<lparr>g_surfaces := h\<rparr>))))))) = Inr g"
    unfolding GameBoard_setup_def and_then_eq_Inr by blast
  have inv1: "setup_inv s1"
    using s1 inv
  proof (rule for_each_partial)
    fix x s s'
    assume "setup_inv s" and "?tiles x s = Inr s'"
    then show "setup_inv s'"
      by (cases x) (auto split: option.splits intro: place_tile_setup_inv)
  qed
  from rest obtain outer inner where
    outer: "b_tmx_tile_data (g_board s1) 0 = Some outer"
    and inner: "b_tmx_tile_data (g_board s1) 1 = Some inner"
    by (auto split: option.splits)
  define xm where "xm = int (length (tiles_of_layer 0 outer @ tiles_of_layer 1 inner)) + GAME_BOARD_TILE_WIDTH"
  define ym where "ym = int (length (tiles_of_layer 0 outer @ tiles_of_layer 1 inner)) + GAME_BOARD_TILE_HEIGHT"
  let ?offset = "\<lambda>tile g.
                         and_then
                           (tile_modify tile (\<lambda>t. x_setter (t_x t + (b_x (g_board g) - xm)) t) g)
                           (\<lambda>g. tile_modify tile (\<lambda>t. y_setter (t_y t + (b_y (g_board g) - ym)) t) g)"
  let ?piece = "\<lambda>index g.
                         and_then (choice (rnd index) (tiles_of_layer 1 inner)) (\<lambda>tile.
                         and_then (get_image (g_resources g) ''piece_black'' (g_surfaces g))
                           (\<lambda>(surface, h). place_piece tile surface (g\<lparr>g_surfaces := h\<rparr>)))"
  from rest outer inner obtain s2 where
    s2: "for_each (tiles_of_layer 0 outer @ tiles_of_layer 1 inner) ?offset s1 = Inr s2"
    and s3: "for_each [0..<GAME_BOARD_NUM_PIECES] ?piece s2 = Inr g"
    by (auto simp: Let_def and_then_eq_Inr xm_def ym_def)
  have n1: "setup_inv_n (length inner) s1"
    using inv1 inner by (simp add: setup_inv_n_def)
  have n2: "setup_inv_n (length inner) s2"
    using s2 n1
  proof (rule for_each_partial)
    fix x s s'
    assume i: "setup_inv_n (length inner) s" and b: "?offset x s = Inr s'"
    from b obtain sx where
      sx: "tile_modify x (\<lambda>t. x_setter (t_x t + (b_x (g_board s) - xm)) t) s = Inr sx"
      and sy: "tile_modify x (\<lambda>t. y_setter (t_y t + (b_y (g_board sx) - ym)) t) sx = Inr s'"
      by (auto simp: and_then_eq_Inr)
    have "setup_inv_n (length inner) sx"
      using sx i by (rule tile_modify_setup_inv) (rule x_setter_keeps)
    with sy show "setup_inv_n (length inner) s'"
      by (rule tile_modify_setup_inv) (rule y_setter_keeps)
  qed
  have n3: "setup_inv_n (length inner) g"
    using s3 n2
  proof (rule for_each_partial)
    fix x s s'
    assume i: "setup_inv_n (length inner) s" and b: "?piece x s = Inr s'"
    from b obtain tile a h where
      c: "choice (rnd x) (tiles_of_layer 1 inner) = Inr tile"
      and im: "get_image (g_resources s) ''piece_black'' (g_surfaces s) = Inr (a, h)"
      and pp: "place_piece tile a (s\<lparr>g_surfaces := h\<rparr>) = Inr s'"
      by (auto simp: and_then_eq_Inr)
    from c have "(fst tile, snd tile) \<in> set (tiles_of_layer 1 inner)"
      using choice_in_set by fastforce
    then have "fst tile = 1"
      by (simp only: tiles_of_layer_set)
    then have tile: "tile = (1, snd tile)"
      by (metis prod.collapse)
    have "setup_inv_n (length inner) (s\<lparr>g_surfaces := h\<rparr>)"
      using i get_image_next_addr [OF im] by (rule setup_inv_surfaces)
    with pp show "setup_inv_n (length inner) s'"
      by (subst (asm) tile) (rule place_piece_setup_inv)
  qed
  then show ?thesis
    by (auto simp: setup_inv_n_def intro: setup_inv_board_inv)
qed

lemma Game_setup_inv:
  assumes "Game_init fs = Inr g0" and "Game_setup fs rnd g0 = Inr g"
  shows "board_inv g"
proof -
  from assms(1) have g0: "b_pieces (g_board g0) = []" "b_piece_selected (g_board g0) = None"
    "b_tmx_tile_selected (g_board g0) = None"
    "\<forall>ts. b_tmx_tile_data (g_board g0) 1 = Some ts \<longrightarrow> ts = []"
    by (auto simp: Game_init_def GameBoard_init_def and_then_eq_Inr split: if_splits)
  from assms(2) obtain r h where
    "GameBoard_setup rnd (g0\<lparr>g_resources := r, g_surfaces := h\<rparr>) = Inr g"
    by (auto simp: Game_setup_def and_then_eq_Inr)
  moreover have "setup_inv (g0\<lparr>g_resources := r, g_surfaces := h\<rparr>)"
    using g0 by (auto simp: setup_inv_def tiles_wf_def pieces_wf_def links_wf_def)
  ultimately show ?thesis by (rule GameBoard_setup_inv)
qed

theorem reachable_board_inv: "reachable g \<Longrightarrow> board_inv g"
proof (induction rule: reachable.induct)
  case (after_setup fs g0 rnd g)
  then show ?case by (rule Game_setup_inv)
next
  case (after_tick g buttons position g')
  with Game_tick_inv [of g buttons position] show ?case by auto
qed

theorem reachable_tick_total:
  "reachable g \<Longrightarrow> \<exists>g'. Game_tick buttons position g = Inr g' \<and> reachable g'"
  using Game_tick_inv [OF reachable_board_inv, of g buttons position]
  by (auto intro: reachable.after_tick)

lemma board_inv_flags:
  assumes "board_inv g" and "b_tmx_tile_data (g_board g) 1 = Some ts"
  shows "tiles_wf ts (b_tmx_tile_selected (g_board g))"
  using assms by (auto simp: board_inv_def)

lemma board_inv_one_selected: "board_inv g \<Longrightarrow> one_selected g"
  by (auto simp: board_inv_def pieces_wf_def one_selected_def)

lemma highlight_only_occupant:
  assumes "highlight_only g s" and "b_tmx_tile_data (g_board s) 1 = Some ts" and "k < length ts"
  shows "occupant g (1, k) = t_piece (ts ! k)"
proof -
  from assms(1,2) obtain tg where tg: "b_tmx_tile_data (g_board g) 1 = Some tg"
    and len: "length tg = length ts"
    and eq: "\<And>k. k < length ts \<Longrightarrow> (tg ! k)\<lparr>t_selected := False\<rparr> = (ts ! k)\<lparr>t_selected := False\<rparr>"
    using highlight_only_tiles by blast
  have "t_piece (tg ! k) = t_piece (ts ! k)"
    using arg_cong [OF eq [OF assms(3)], of t_piece] by simp
  with tg len assms(3) show ?thesis by (simp add: occupant_inner)
qed

lemma moved_tiles_keeps:
  assumes "\<And>t x. f (t\<lparr>t_piece := x\<rparr>) = f t"
  shows "f (moved_tiles ts k0 k p ! j) = f (ts ! j)"
  unfolding moved_tiles_def using assms by (simp add: nth_update_proj [where f = f])

lemma blink_only_fields:
  assumes "blink_only g s" and "p < length (b_pieces (g_board g))"
  shows "t_x (b_pieces (g_board s) ! p) = t_x (b_pieces (g_board g) ! p)"
    and "t_y (b_pieces (g_board s) ! p) = t_y (b_pieces (g_board g) ! p)"
    and "t_rect (b_pieces (g_board s) ! p) = t_rect (b_pieces (g_board g) ! p)"
    and "p_tile (b_pieces (g_board s) ! p) = p_tile (b_pieces (g_board g) ! p)"
    and "t_selected (b_pieces (g_board s) ! p) = t_selected (b_pieces (g_board g) ! p)"
  using arg_cong [OF blink_only_piece [OF assms], of t_x]
    arg_cong [OF blink_only_piece [OF assms], of t_y]
    arg_cong [OF blink_only_piece [OF assms], of t_rect]
    arg_cong [OF blink_only_piece [OF assms], of p_tile]
    arg_cong [OF blink_only_piece [OF assms], of t_selected]
  by simp_all

subsection \<open>Running the model\<close>

text \<open>
  A run on given files is computed by rewriting. The continuation of \<open>and_then\<close> and the
  body of a loop are left alone until the state they are applied to is known.
\<close>

lemma and_then_cong: "m = m' \<Longrightarrow> and_then m f = and_then m' f"
  by simp

lemma for_each_cong: "xs = xs' \<Longrightarrow> s = s' \<Longrightarrow> for_each xs body s = for_each xs' body s'"
  by simp

lemma list_update_numeral: "(x # xs)[numeral k := y] = x # xs[pred_numeral k := y]"
  by (simp add: numeral_eq_Suc)

lemmas model_defs =
  Game_init_def Game_setup_def Game_tick_def GameBoard_init_def GameBoard_setup_def
  GameBoard_tick_def GameResources_setup_def GameResources_init_def GameMouse_init_def
  GameMouse_tick_def load_image_def load_map_def get_image_def Surface_new_def Surface_copy_def
  Surface_update_def set_alpha_def get_rect_def collidepoint_def GameTile_init_def
  GamePiece_init_def surface_setter_def x_setter_def y_setter_def setattr_def
  GamePiece_blinking_def setter_def GamePiece_tick_def tile_at_def tile_modify_def piece_at_def
  piece_modify_def choice_def place_tile_def place_piece_def cells_def tiles_of_layer_def
  clear_selected_tile_def set_selected_tile_def clear_selected_piece_def set_selected_piece_def
  move_selected_piece_def highlight_tile_def highlight_tiles_def switch_condition_def
  select_condition_def move_condition_def tile_selected_piece_def switch_piece_def
  select_piece_def move_piece_def tick_piece_def tick_pieces_def GAME_BOARD_TILE_WIDTH_def
  GAME_BOARD_TILE_HEIGHT_def GAME_BOARD_TILE_ALPHA_SELECTED_def GAME_BOARD_TILE_ALPHA_NORMAL_def
  GAME_BOARD_NUM_PIECES_def GAME_BOARD_X_def GAME_BOARD_Y_def Let_def
  upt_conv_Cons list_update_numeral

lemmas demo_defs =
  One_nat_def demo_rnd_def demo_init_def demo_files_def demo_map_def demo_surface_def model_defs

text \<open>
  The sample run, computed once: setup, then the ticks and highlight loops that the
  properties below look at. Each \<open>case\<close> says that the step raises nothing.
\<close>

lemma demo_run:
  "case Game_setup demo_files demo_rnd demo_init of
     Inl _ \<Rightarrow> False
   | Inr g \<Rightarrow>
       (map_sum id p_tile (piece_at g 0) = Inr (Some (1, 0))
        \<and> map_sum id p_tile (piece_at g 10) = Inr (Some (1, 0))
        \<and> map_sum id t_piece (tile_at g (1, 0)) = Inr (Some 10))
     \<and> (case highlight_tiles
                (g\<lparr>g_mouse := GameMouse_tick (True, False, False) (500, 270) (g_mouse g)\<rparr>) of
           Inl _ \<Rightarrow> False
         | Inr h \<Rightarrow> switch_piece h = Inr h \<and> select_condition h = Inr True)
     \<and> (case Game_tick (True, False, False) (500, 270) g of
           Inl _ \<Rightarrow> False
         | Inr s \<Rightarrow>
             (b_piece_selected (g_board s) = Some 10
              \<and> fst (m_pressed (g_mouse s))
              \<and> b_tmx_tile_selected (g_board s) = Some (1, 0)
              \<and> under_pointer
                   (s\<lparr>g_mouse := GameMouse_tick (True, False, False) (530, 270) (g_mouse s)\<rparr>) 1
              \<and> \<not> under_pointer
                   (s\<lparr>g_mouse := GameMouse_tick (True, False, False) (530, 270) (g_mouse s)\<rparr>) 0)
           \<and> (case Game_tick (True, False, False) (530, 270) s of
                 Inl _ \<Rightarrow> False
               | Inr w \<Rightarrow>
                   fst (m_last_pressed (g_mouse w)) \<and> b_piece_selected (g_board w) = Some 11)
           \<and> (case highlight_tiles
                      (s\<lparr>g_mouse := GameMouse_tick (True, False, False) (530, 270) (g_mouse s)\<rparr>) of
                 Inl _ \<Rightarrow> False
               | Inr h \<Rightarrow> switch_condition h = Inr True)
           \<and> (case Game_tick (False, False, False) (560, 270) s of
                 Inl _ \<Rightarrow> False
               | Inr r \<Rightarrow>
                   (\<not> fst (m_pressed (g_mouse r))
                    \<and> b_piece_selected (g_board r) = Some 10
                    \<and> home_tile r 10 = Some (1, 0))
                 \<and> (case highlight_tiles
                            (r\<lparr>g_mouse :=
                               GameMouse_tick (True, False, False) (560, 270) (g_mouse r)\<rparr>) of
                       Inl _ \<Rightarrow> False
                     | Inr t \<Rightarrow>
                         b_tmx_tile_selected (g_board t) = Some (1, 2)
                         \<and> occupant t (1, 2) = None)))"
  by (simp add: under_pointer_def home_tile_def occupant_def demo_defs
      cong: and_then_cong for_each_cong let_weak_cong)

lemma demo_init_ok: "Game_init demo_files = Inr demo_init"
proof -
  have "\<not> isl (Game_init demo_files)"
    by (simp add: demo_defs cong: and_then_cong for_each_cong)
  then show ?thesis by (simp add: demo_init_def)
qed

lemma demo_start_setup: "Game_setup demo_files demo_rnd demo_init = Inr demo_start"
  using demo_run
  by (cases "Game_setup demo_files demo_rnd demo_init") (simp_all add: demo_start_def)

lemma demo_start_reachable: "reachable demo_start"
  using demo_init_ok demo_start_setup by (rule reachable.after_setup)

lemma tick_projr:
  "reachable g \<Longrightarrow> Game_tick buttons position g = Inr (projr (Game_tick buttons position g))"
  using reachable_tick_total [of g buttons position] by auto

lemma highlight_projr:
  "reachable g \<Longrightarrow>
   highlight_tiles (g\<lparr>g_mouse := m\<rparr>) = Inr (projr (highlight_tiles (g\<lparr>g_mouse := m\<rparr>)))"
  using highlight_tiles_inv [of "g\<lparr>g_mouse := m\<rparr>"] reachable_board_inv [of g]
  by (auto simp: board_inv_mouse)

lemma demo_selected_tick: "Game_tick (True, False, False) (500, 270) demo_start = Inr demo_selected"
  unfolding demo_selected_def using demo_start_reachable by (rule tick_projr)

lemma demo_selected_reachable: "reachable demo_selected"
  using demo_start_reachable demo_selected_tick by (rule reachable.after_tick)

lemma demo_switched_tick: "Game_tick (True, False, False) (530, 270) demo_selected = Inr demo_switched"
  unfolding demo_switched_def using demo_selected_reachable by (rule tick_projr)

lemma demo_released_tick: "Game_tick (False, False, False) (560, 270) demo_selected = Inr demo_released"
  unfolding demo_released_def using demo_selected_reachable by (rule tick_projr)

lemma demo_released_reachable: "reachable demo_released"
  using demo_selected_reachable demo_released_tick by (rule reachable.after_tick)

lemma demo_highlighted_run: "highlight_tiles demo_pressed = Inr demo_highlighted"
  unfolding demo_highlighted_def demo_pressed_def using demo_start_reachable by (rule highlight_projr)

lemma demo_held_run: "highlight_tiles demo_held = Inr demo_held_highlighted"
  unfolding demo_held_highlighted_def demo_held_def using demo_selected_reachable
  by (rule highlight_projr)

lemma demo_target_run:
  "highlight_tiles (demo_released\<lparr>g_mouse :=
     GameMouse_tick (True, False, False) (560, 270) (g_mouse demo_released)\<rparr>) = Inr demo_target"
  unfolding demo_target_def using demo_released_reachable by (rule highlight_projr)

lemmas demo_steps =
  demo_start_setup demo_selected_tick demo_switched_tick demo_released_tick
  demo_highlighted_run [unfolded demo_pressed_def] demo_held_run [unfolded demo_held_def]
  demo_target_run

lemma demo_start_facts:
  "map_sum id p_tile (piece_at demo_start 0) = Inr (Some (1, 0))
   \<and> map_sum id p_tile (piece_at demo_start 10) = Inr (Some (1, 0))
   \<and> map_sum id t_piece (tile_at demo_start (1, 0)) = Inr (Some 10)"
  using demo_run by (simp add: demo_steps)

lemma demo_select_fires:
  "switch_piece demo_highlighted = Inr demo_highlighted
   \<and> select_condition demo_highlighted = Inr True"
  using demo_run by (simp add: demo_steps)

lemma demo_selected_facts:
  "b_piece_selected (g_board demo_selected) = Some 10
   \<and> fst (m_pressed (g_mouse demo_selected))
   \<and> b_tmx_tile_selected (g_board demo_selected) = Some (1, 0)
   \<and> under_pointer demo_held 1 \<and> \<not> under_pointer demo_held 0"
  using demo_run by (simp add: demo_steps demo_held_def)

lemma demo_switched_facts:
  "fst (m_last_pressed (g_mouse demo_switched))
   \<and> b_piece_selected (g_board demo_switched) = Some 11"
  using demo_run by (simp add: demo_steps)

lemma demo_held_facts: "switch_condition demo_held_highlighted = Inr True"
  using demo_run by (simp add: demo_steps)

lemma demo_released_facts:
  "\<not> fst (m_pressed (g_mouse demo_released))
   \<and> b_piece_selected (g_board demo_released) = Some 10
   \<and> home_tile demo_released 10 = Some (1, 0)"
  using demo_run by (simp add: demo_steps)

lemma demo_target_facts:
  "b_tmx_tile_selected (g_board demo_target) = Some (1, 2) \<and> occupant demo_target (1, 2) = None"
  using demo_run by (simp add: demo_steps)

subsection \<open>Setting up: two pieces on one tile\<close>

text \<open>
  C1 fails in the code. setup draws the tile of each of the twelve pieces with
  random.choice from all inner tiles, occupied or not, and place_piece overwrites the
  tile's occupant. In the run below (draws alternating between two inner tiles) the pieces 0 and
  10 both have the first inner tile as their home tile, and that tile's occupant is
  piece 10 only: the home tile of piece 0 does not hold piece 0.
\<close>

theorem setup_shares_a_tile:
  "reachable demo_start
   \<and> map_sum id p_tile (piece_at demo_start 0) = Inr (Some (1, 0))
   \<and> map_sum id p_tile (piece_at demo_start 10) = Inr (Some (1, 0))
   \<and> map_sum id t_piece (tile_at demo_start (1, 0)) = Inr (Some 10)"
  using demo_start_reachable demo_start_facts by simp

subsection \<open>The highlighted tile\<close>

text \<open>
  C5. In every reachable state and for every mouse sample, the loop over the inner tiles
  (the highlight phase of the tick) raises nothing and leaves a state in which a tile of
  layer 1 has its selected flag set exactly if it is the board's recorded highlighted
  tile, so at most one has; the highlighted tile, if there is one, is a tile of layer 1
  whose rectangle contains the pointer, and there is one whenever some tile's rectangle
  contains the pointer (the rectangles are those before the loop: the loop moves no
  tile). The tile that was highlighted before the tick, if the pointer is no longer in
  its rectangle, has its flag cleared and the alpha of its surface back at
  GAME_BOARD_TILE_ALPHA_NORMAL.
\<close>

theorem highlight_phase:
  assumes "reachable g0"
  shows "\<exists>g1 ts.
      highlight_tiles (g0\<lparr>g_mouse := m\<rparr>) = Inr g1
    \<and> b_tmx_tile_data (g_board g1) 1 = Some ts
    \<and> (\<forall>k < length ts. t_selected (ts ! k) \<longleftrightarrow> b_tmx_tile_selected (g_board g1) = Some (1, k))
    \<and> (\<forall>j < length ts. \<forall>k < length ts. t_selected (ts ! j) \<and> t_selected (ts ! k) \<longrightarrow> j = k)
    \<and> (\<forall>r. b_tmx_tile_selected (g_board g1) = Some r \<longrightarrow>
          fst r = 1 \<and> snd r < length ts \<and> under_pointer (g0\<lparr>g_mouse := m\<rparr>) (snd r))
    \<and> ((\<exists>k. under_pointer (g0\<lparr>g_mouse := m\<rparr>) k) \<longrightarrow> b_tmx_tile_selected (g_board g1) \<noteq> None)
    \<and> (\<forall>k. under_pointer g1 k \<longleftrightarrow> under_pointer (g0\<lparr>g_mouse := m\<rparr>) k)
    \<and> (\<forall>j. b_tmx_tile_selected (g_board g0) = Some (1, j) \<longrightarrow>
          \<not> under_pointer (g0\<lparr>g_mouse := m\<rparr>) j \<longrightarrow>
          j < length ts \<and> \<not> t_selected (ts ! j)
          \<and> tile_alpha g1 j = Some GAME_BOARD_TILE_ALPHA_NORMAL)"
proof -
  let ?g = "g0\<lparr>g_mouse := m\<rparr>"
  have bi: "board_inv ?g"
    using assms by (simp add: board_inv_mouse reachable_board_inv)
  from highlight_tiles_inv [OF bi] obtain g1 where
    run: "highlight_tiles ?g = Inr g1" and bi1: "board_inv g1" and ho: "highlight_only ?g g1"
    and under: "\<And>k. b_tmx_tile_selected (g_board g1) = Some (1, k) \<Longrightarrow> under_pointer ?g k"
    and some: "(\<exists>k. under_pointer ?g k) \<Longrightarrow> b_tmx_tile_selected (g_board g1) \<noteq> None"
    and alpha: "\<And>j. b_tmx_tile_selected (g_board ?g) = Some (1, j) \<Longrightarrow> \<not> under_pointer ?g j \<Longrightarrow>
                  tile_alpha g1 j = Some GAME_BOARD_TILE_ALPHA_NORMAL"
    by blast
  from bi1 obtain ts where ts: "b_tmx_tile_data (g_board g1) 1 = Some ts"
    and twf: "tiles_wf ts (b_tmx_tile_selected (g_board g1))"
    by (auto simp: board_inv_def)
  have flag: "t_selected (ts ! k) \<longleftrightarrow> b_tmx_tile_selected (g_board g1) = Some (1, k)"
    if "k < length ts" for k
    using twf that by (rule tiles_wf_flag)
  have one: "j = k" if "j < length ts" "k < length ts" "t_selected (ts ! j)" "t_selected (ts ! k)" for j k
    using that flag by auto
  have sel: "fst r = 1 \<and> snd r < length ts \<and> under_pointer ?g (snd r)"
    if "b_tmx_tile_selected (g_board g1) = Some r" for r
  proof -
    from twf that obtain k where "r = (1, k)" "k < length ts"
      by (metis tiles_wf_sel)
    with that under show ?thesis by simp
  qed
  have same: "under_pointer g1 k \<longleftrightarrow> under_pointer ?g k" for k
    using under_pointer_highlight_only [OF ho ts, of k] ts
    by (cases "t_rect (ts ! k)") (auto simp: under_pointer_def)
  have old: "j < length ts \<and> \<not> t_selected (ts ! j)
          \<and> tile_alpha g1 j = Some GAME_BOARD_TILE_ALPHA_NORMAL"
    if j: "b_tmx_tile_selected (g_board g0) = Some (1, j)" and nu: "\<not> under_pointer ?g j" for j
  proof -
    from bi obtain tg where tg: "b_tmx_tile_data (g_board ?g) 1 = Some tg"
      and "tiles_wf tg (b_tmx_tile_selected (g_board ?g))"
      by (auto simp: board_inv_def)
    with j have "j < length tg"
      using tiles_wf_sel by fastforce
    then have jl: "j < length ts"
      using highlight_only_length [OF ho ts tg] by simp
    moreover have "\<not> t_selected (ts ! j)"
      using flag [OF jl] under [of j] nu by auto
    moreover have "tile_alpha g1 j = Some GAME_BOARD_TILE_ALPHA_NORMAL"
      using alpha [of j] j nu by simp
    ultimately show ?thesis by simp
  qed
  show ?thesis
    using run ts flag one sel some same old
    by (intro exI [of _ g1] exI [of _ ts]) blast
qed

theorem highlight_phase_witness:
  "reachable demo_selected
   \<and> b_tmx_tile_selected (g_board demo_selected) = Some (1, 0)
   \<and> under_pointer demo_held 1 \<and> \<not> under_pointer demo_held 0
   \<and> (\<exists>g1 ts. highlight_tiles demo_held = Inr g1
         \<and> b_tmx_tile_data (g_board g1) 1 = Some ts
         \<and> b_tmx_tile_selected (g_board g1) \<noteq> None
         \<and> \<not> t_selected (ts ! 0)
         \<and> tile_alpha g1 0 = Some GAME_BOARD_TILE_ALPHA_NORMAL)"
proof -
  from highlight_phase [OF demo_selected_reachable,
      of "GameMouse_tick (True, False, False) (530, 270) (g_mouse demo_selected)"]
  have "\<exists>g1 ts. highlight_tiles demo_held = Inr g1
         \<and> b_tmx_tile_data (g_board g1) 1 = Some ts
         \<and> b_tmx_tile_selected (g_board g1) \<noteq> None
         \<and> \<not> t_selected (ts ! 0)
         \<and> tile_alpha g1 0 = Some GAME_BOARD_TILE_ALPHA_NORMAL"
    unfolding demo_held_def [symmetric] using demo_selected_facts by blast
  with demo_selected_reachable demo_selected_facts show ?thesis by simp
qed

subsection \<open>The selected piece\<close>

text \<open>
  C4. In every reachable state a piece has its selected flag set exactly if it is the
  board's recorded selected piece (\<open>one_selected\<close>), so at most one piece is selected;
  the same holds in the states between the statements of a tick: after the highlight
  loop, after the switch statement, after the select statement and after the move
  statement, none of which raises. When the switch statement fires, clear_selected_piece
  first leaves a state with no selected piece and no recorded one, and set_selected_piece
  then selects the piece of the highlighted tile, which is the only piece selected
  afterwards.
\<close>

theorem one_piece_selected:
  assumes "reachable g"
  shows "one_selected g
    \<and> (\<forall>m g1. highlight_tiles (g\<lparr>g_mouse := m\<rparr>) = Inr g1 \<longrightarrow>
          one_selected g1
        \<and> (\<exists>g2 g3 g4. switch_piece g1 = Inr g2 \<and> one_selected g2
              \<and> select_piece g2 = Inr g3 \<and> one_selected g3
              \<and> move_piece g3 = Inr g4 \<and> one_selected g4)
        \<and> (switch_condition g1 = Inr True \<longrightarrow>
             (\<exists>gc q g2.
                 clear_selected_piece g1 = Inr gc
               \<and> b_piece_selected (g_board gc) = None
               \<and> (\<forall>p < length (b_pieces (g_board gc)). \<not> t_selected (b_pieces (g_board gc) ! p))
               \<and> tile_selected_piece gc = Inr (Some q)
               \<and> set_selected_piece (Some q) gc = Inr g2
               \<and> switch_piece g1 = Inr g2
               \<and> b_piece_selected (g_board g2) = Some q
               \<and> (\<forall>p < length (b_pieces (g_board g2)).
                     t_selected (b_pieces (g_board g2) ! p) \<longleftrightarrow> p = q))))"
proof (intro conjI allI impI)
  show "one_selected g"
    using assms by (intro board_inv_one_selected reachable_board_inv)
next
  fix m g1
  assume run: "highlight_tiles (g\<lparr>g_mouse := m\<rparr>) = Inr g1"
  have "board_inv (g\<lparr>g_mouse := m\<rparr>)"
    using assms by (simp add: board_inv_mouse reachable_board_inv)
  from highlight_tiles_inv [OF this] run have bi1: "board_inv g1" by auto
  then show "one_selected g1" by (rule board_inv_one_selected)
  from switch_piece_inv [OF bi1] obtain g2 where g2: "switch_piece g1 = Inr g2" "board_inv g2"
    by blast
  from select_piece_inv [OF g2(2)] obtain g3 where g3: "select_piece g2 = Inr g3" "board_inv g3"
    by blast
  from move_piece_inv [OF g3(2)] obtain g4 where g4: "move_piece g3 = Inr g4" "board_inv g4"
    by blast
  from g2 g3 g4 show "\<exists>g2 g3 g4. switch_piece g1 = Inr g2 \<and> one_selected g2
              \<and> select_piece g2 = Inr g3 \<and> one_selected g3
              \<and> move_piece g3 = Inr g4 \<and> one_selected g4"
    using board_inv_one_selected by blast
  assume "switch_condition g1 = Inr True"
  from switch_piece_fires [OF bi1 this] obtain q gc g2 where
    gc: "clear_selected_piece g1 = Inr gc" "board_inv gc" "b_piece_selected (g_board gc) = None"
    and q: "tile_selected_piece gc = Inr (Some q)" "set_selected_piece (Some q) gc = Inr g2"
      "switch_piece g1 = Inr g2" "board_inv g2" "b_piece_selected (g_board g2) = Some q"
    by blast
  from gc have "\<forall>p < length (b_pieces (g_board gc)). \<not> t_selected (b_pieces (g_board gc) ! p)"
    using board_inv_one_selected [OF gc(2)] by (simp add: one_selected_def)
  moreover from q have "\<forall>p < length (b_pieces (g_board g2)).
      t_selected (b_pieces (g_board g2) ! p) \<longleftrightarrow> p = q"
    using board_inv_one_selected [OF q(4)] by (auto simp: one_selected_def)
  ultimately show "\<exists>gc q g2.
                 clear_selected_piece g1 = Inr gc
               \<and> b_piece_selected (g_board gc) = None
               \<and> (\<forall>p < length (b_pieces (g_board gc)). \<not> t_selected (b_pieces (g_board gc) ! p))
               \<and> tile_selected_piece gc = Inr (Some q)
               \<and> set_selected_piece (Some q) gc = Inr g2
               \<and> switch_piece g1 = Inr g2
               \<and> b_piece_selected (g_board g2) = Some q
               \<and> (\<forall>p < length (b_pieces (g_board g2)).
                     t_selected (b_pieces (g_board g2) ! p) \<longleftrightarrow> p = q)"
    using gc q by blast
qed

theorem one_piece_selected_witness:
  "reachable demo_selected \<and> one_selected demo_selected
   \<and> highlight_tiles demo_held = Inr demo_held_highlighted
   \<and> switch_condition demo_held_highlighted = Inr True
   \<and> one_selected demo_held_highlighted
   \<and> (\<exists>gc q g2. clear_selected_piece demo_held_highlighted = Inr gc
         \<and> b_piece_selected (g_board gc) = None
         \<and> switch_piece demo_held_highlighted = Inr g2
         \<and> b_piece_selected (g_board g2) = Some q)"
proof -
  note t = one_piece_selected [OF demo_selected_reachable]
  from t have "one_selected demo_selected" by simp
  moreover from t demo_held_run have "one_selected demo_held_highlighted"
    unfolding demo_held_def by blast
  moreover from t demo_held_run demo_held_facts
  have "\<exists>gc q g2. clear_selected_piece demo_held_highlighted = Inr gc
         \<and> b_piece_selected (g_board gc) = None
         \<and> switch_piece demo_held_highlighted = Inr g2
         \<and> b_piece_selected (g_board g2) = Some q"
    unfolding demo_held_def by blast
  ultimately show ?thesis
    using demo_selected_reachable demo_held_run demo_held_facts by simp
qed

subsection \<open>Selecting with the button held\<close>

text \<open>
  C3 fails in the code. The first \<open>if\<close> of GameBoard.tick, which switches the
  selection, tests the button but not its previous sample. In the run below piece 10 is
  selected by a press over the first inner tile; on the next tick the button is still
  down (the previous sample is pressed, so there is no press edge) and the pointer is
  over the second inner tile: the selected piece changes from 10 to 11.
\<close>

theorem held_button_switches_selection:
  "reachable demo_selected
   \<and> b_piece_selected (g_board demo_selected) = Some 10
   \<and> fst (m_pressed (g_mouse demo_selected))
   \<and> Game_tick (True, False, False) (530, 270) demo_selected = Inr demo_switched
   \<and> fst (m_last_pressed (g_mouse demo_switched))
   \<and> b_piece_selected (g_board demo_switched) = Some 11"
  using demo_selected_reachable demo_selected_facts demo_switched_tick demo_switched_facts
  by simp

subsection \<open>Selecting and moving in one tick\<close>

text \<open>
  C6. On a tick whose second \<open>if\<close> (select) fires, the third (move) does not: in the
  state the select statement leaves, the condition of the move statement is false, the
  move statement changes nothing, and the tick goes on with the pieces' ticks from that
  very state. (The select statement fires only if no piece is selected and the
  highlighted tile holds a piece; the move statement needs a highlighted tile without
  one.)
\<close>

theorem select_excludes_move:
  assumes "highlight_tiles g = Inr g1" and "switch_piece g1 = Inr g2"
    and "select_condition g2 = Inr True" and "select_piece g2 = Inr g3"
  shows "move_condition g3 = Inr False \<and> move_piece g3 = Inr g3
       \<and> GameBoard_tick g = tick_pieces g3"
proof -
  from assms(3) obtain r t where
    r: "b_tmx_tile_selected (g_board g2) = Some r" and t: "tile_at g2 r = Inr t"
    and occ: "t_piece t \<noteq> None"
    by (auto simp: select_condition_def and_then_def split: if_splits option.splits sum.splits)
  from occ obtain q where q: "t_piece t = Some q" by auto
  from assms(4) assms(3) r t q have
    g3: "g3 = g2\<lparr>g_board := (g_board g2)\<lparr>b_piece_selected := Some q,
           b_pieces := (b_pieces (g_board g2))[q := (b_pieces (g_board g2) ! q)\<lparr>t_selected := True\<rparr>]\<rparr>\<rparr>"
    by (auto simp: select_piece_def tile_selected_piece_def set_selected_piece_def piece_modify_def
        and_then_def Let_def split: if_splits)
  have "tile_at g3 r = Inr t"
    using t by (simp add: g3 tile_at_def)
  then have mc: "move_condition g3 = Inr False"
    using r q by (simp add: move_condition_def g3 and_then_def)
  then have mp: "move_piece g3 = Inr g3"
    by (simp add: move_piece_def and_then_def)
  show ?thesis
    using mc mp assms by (simp add: GameBoard_tick_def and_then_def)
qed

theorem select_excludes_move_witness:
  "highlight_tiles demo_pressed = Inr demo_highlighted
   \<and> switch_piece demo_highlighted = Inr demo_highlighted
   \<and> select_condition demo_highlighted = Inr True
   \<and> move_condition (projr (select_piece demo_highlighted)) = Inr False
   \<and> GameBoard_tick demo_pressed = tick_pieces (projr (select_piece demo_highlighted))"
proof -
  have "board_inv demo_highlighted"
    using highlight_tiles_inv [of demo_pressed] demo_highlighted_run
      reachable_board_inv [OF demo_start_reachable]
    by (auto simp: demo_pressed_def board_inv_mouse)
  from select_piece_inv [OF this]
  have s: "select_piece demo_highlighted = Inr (projr (select_piece demo_highlighted))"
    by auto
  show ?thesis
    using select_excludes_move [OF demo_highlighted_run _ _ s] demo_highlighted_run demo_select_fires
    by simp
qed

subsection \<open>Moving the selected piece\<close>

text \<open>
  C2. Take a reachable state with piece \<open>p\<close> selected and the button up, and a tick
  whose sample has the button down (a press edge), in which the highlight loop leaves the
  tile \<open>r\<close> highlighted and \<open>r\<close> holds no piece. Then the tick raises nothing
  and in the state it leaves: the piece has the position of the tile (its x, its y and the
  corner of its rectangle), its home tile is \<open>r\<close>, the occupant of \<open>r\<close> is the
  piece, the tile that was its home before (another tile, whose occupant it was) has no
  occupant, no piece is recorded as selected and the piece's selected flag is cleared.
\<close>

theorem press_on_empty_tile_moves:
  assumes reach: "reachable g0"
    and up: "\<not> fst (m_pressed (g_mouse g0))" and down: "fst buttons"
    and sel: "b_piece_selected (g_board g0) = Some p"
    and hl: "highlight_tiles (g0\<lparr>g_mouse := GameMouse_tick buttons position (g_mouse g0)\<rparr>) = Inr g1"
    and tile: "b_tmx_tile_selected (g_board g1) = Some r" and empty: "occupant g1 r = None"
  shows "\<exists>g' pc t r0.
      Game_tick buttons position g0 = Inr g'
    \<and> piece_at g' p = Inr pc \<and> tile_at g' r = Inr t
    \<and> t_x pc = t_x t \<and> t_y pc = t_y t
    \<and> (\<exists>rc. t_rect pc = Some rc \<and> r_x rc = t_x t \<and> r_y rc = t_y t)
    \<and> p_tile pc = Some r \<and> t_piece t = Some p
    \<and> home_tile g0 p = Some r0 \<and> r0 \<noteq> r \<and> occupant g0 r0 = Some p \<and> occupant g' r0 = None
    \<and> b_piece_selected (g_board g') = None \<and> \<not> t_selected pc
    \<and> b_tmx_tile_selected (g_board g') = Some r"
proof -
  let ?g = "g0\<lparr>g_mouse := GameMouse_tick buttons position (g_mouse g0)\<rparr>"
  have bi: "board_inv ?g"
    using reach by (simp add: board_inv_mouse reachable_board_inv)
  from highlight_tiles_inv [OF bi] hl have bi1: "board_inv g1" and ho: "highlight_only ?g g1"
    by auto
  from ho sel have sel1: "b_piece_selected (g_board g1) = Some p"
    and ps1: "b_pieces (g_board g1) = b_pieces (g_board g0)"
    and m1: "g_mouse g1 = GameMouse_tick buttons position (g_mouse g0)"
    by (simp_all add: highlight_only_def)
  have edge: "press_edge g1"
    using up down by (simp add: press_edge_def m1 GameMouse_tick_def)
  have c1: "switch_condition g1 = Inr False"
    using conditions_inv(1) [OF bi1] tile empty by simp
  have c2: "select_condition g1 = Inr False"
    using conditions_inv(2) [OF bi1] sel1 by simp
  have c3: "move_condition g1 = Inr True"
    using conditions_inv(3) [OF bi1] sel1 tile empty edge by simp
  from move_piece_fires [OF bi1 c3] sel1 tile obtain k k0 ts g4 where
    r: "r = (1, k)" and ts: "b_tmx_tile_data (g_board g1) 1 = Some ts"
    and k: "k < length ts" and k0: "k0 < length ts"
    and p: "p < length (b_pieces (g_board g1))"
    and home: "p_tile (b_pieces (g_board g1) ! p) = Some (1, k0)"
    and occ0: "t_piece (ts ! k0) = Some p" and occ: "t_piece (ts ! k) = None"
    and mv: "move_piece g1 = Inr g4" and bi4: "board_inv g4"
    and g4: "g4 = with_pieces
                  ((b_pieces (g_board g1))[p := moved_piece (b_pieces (g_board g1) ! p) (ts ! k) (1, k)])
                  None
                  (g1\<lparr>g_board := (g_board g1)\<lparr>b_tmx_tile_data :=
                       (b_tmx_tile_data (g_board g1))(1 \<mapsto> moved_tiles ts k0 k p)\<rparr>\<rparr>)"
    by auto
  from tick_pieces_inv [OF bi4] obtain g5 where
    g5: "tick_pieces g4 = Inr g5" and bo: "blink_only g4 g5"
    by blast
  have run: "Game_tick buttons position g0 = Inr g5"
    using hl c1 c2 mv g5
    by (simp add: Game_tick_def GameBoard_tick_def switch_piece_skips select_piece_skips)
  let ?ps = "b_pieces (g_board g1)"
  let ?t = "moved_tiles ts k0 k p ! k"
  have ps4: "b_pieces (g_board g4) = ?ps[p := moved_piece (?ps ! p) (ts ! k) (1, k)]"
    by (simp add: g4)
  have p4: "p < length (b_pieces (g_board g4))"
    using p by (simp add: ps4)
  have piece4: "b_pieces (g_board g4) ! p = moved_piece (?ps ! p) (ts ! k) (1, k)"
    using p by (simp add: ps4)
  from bi1 ts p obtain rc where rc: "t_rect (?ps ! p) = Some rc"
    using pieces_wf_rect by (fastforce simp: board_inv_def)
  have data5: "b_tmx_tile_data (g_board g5) 1 = Some (moved_tiles ts k0 k p)"
    using bo by (simp add: blink_only_def g4)
  have kk0: "k0 \<noteq> k"
    using occ0 occ by auto
  have "piece_at g5 p = Inr (b_pieces (g_board g5) ! p)"
    using p4 bo by (simp add: piece_at_def blink_only_length)
  moreover have "tile_at g5 r = Inr ?t"
    using data5 k by (simp add: r tile_at_def)
  moreover have "t_x (b_pieces (g_board g5) ! p) = t_x ?t" "t_y (b_pieces (g_board g5) ! p) = t_y ?t"
    using blink_only_fields(1,2) [OF bo p4]
    by (simp_all add: piece4 moved_piece_def moved_tiles_keeps)
  moreover have "\<exists>rc. t_rect (b_pieces (g_board g5) ! p) = Some rc \<and> r_x rc = t_x ?t \<and> r_y rc = t_y ?t"
    using blink_only_fields(3) [OF bo p4] rc
    by (simp add: piece4 moved_piece_def moved_tiles_keeps)
  moreover have "p_tile (b_pieces (g_board g5) ! p) = Some r"
    "\<not> t_selected (b_pieces (g_board g5) ! p)"
    using blink_only_fields(4,5) [OF bo p4] by (simp_all add: piece4 moved_piece_def r)
  moreover have "t_piece ?t = Some p"
    using k by (simp add: t_piece_moved_tiles)
  moreover have "home_tile g0 p = Some (1, k0)"
    using home p by (simp add: home_tile_def piece_at_def ps1)
  moreover have "(1, k0) \<noteq> r"
    using kk0 by (simp add: r)
  moreover have "occupant g0 (1, k0) = Some p"
    using highlight_only_occupant [OF ho ts k0] occ0 by (simp add: occupant_def tile_at_def)
  moreover have "occupant g5 (1, k0) = None"
    using data5 k k0 kk0 by (simp add: occupant_inner t_piece_moved_tiles)
  moreover have "b_piece_selected (g_board g5) = None" "b_tmx_tile_selected (g_board g5) = Some r"
    using bo tile by (simp_all add: blink_only_def g4)
  ultimately show ?thesis
    using run by blast
qed

theorem press_on_empty_tile_moves_witness:
  "reachable demo_released
   \<and> \<not> fst (m_pressed (g_mouse demo_released))
   \<and> b_piece_selected (g_board demo_released) = Some 10
   \<and> home_tile demo_released 10 = Some (1, 0)
   \<and> b_tmx_tile_selected (g_board demo_target) = Some (1, 2)
   \<and> occupant demo_target (1, 2) = None
   \<and> (\<exists>g'. Game_tick (True, False, False) (560, 270) demo_released = Inr g'
         \<and> home_tile g' 10 = Some (1, 2) \<and> occupant g' (1, 2) = Some 10
         \<and> occupant g' (1, 0) = None \<and> b_piece_selected (g_board g') = None)"
proof -
  have facts: "\<not> fst (m_pressed (g_mouse demo_released))" "fst (True, False, False)"
    "b_piece_selected (g_board demo_released) = Some 10"
    "home_tile demo_released 10 = Some (1, 0)"
    "b_tmx_tile_selected (g_board demo_target) = Some (1, 2)"
    "occupant demo_target (1, 2) = None"
    using demo_released_facts demo_target_facts by simp_all
  from press_on_empty_tile_moves [OF demo_released_reachable facts(1,2,3) demo_target_run facts(5,6)]
  obtain g' pc t r0 where
    "Game_tick (True, False, False) (560, 270) demo_released = Inr g'"
    "piece_at g' 10 = Inr pc" "tile_at g' (1, 2) = Inr t" "p_tile pc = Some (1, 2)"
    "t_piece t = Some 10" "home_tile demo_released 10 = Some r0" "occupant g' r0 = None"
    "b_piece_selected (g_board g') = None"
    by blast
  with facts(4) have "Game_tick (True, False, False) (560, 270) demo_released = Inr g'
         \<and> home_tile g' 10 = Some (1, 2) \<and> occupant g' (1, 2) = Some 10
         \<and> occupant g' (1, 0) = None \<and> b_piece_selected (g_board g') = None"
    by (simp add: home_tile_def occupant_def)
  with demo_released_reachable facts show ?thesis by blast
qed

subsection \<open>Assigning to the blinking property\<close>

text \<open>
  C9, as the code has it. Assigning to the \<open>blinking\<close> property of a piece stores the
  assigned value in the piece's blink flag and changes nothing else: the descriptor that
  \<open>tile.setter\<close> returns keeps the function it was given as its setter. This is how
  clear_selected_piece resets the flag: called with piece \<open>p\<close> selected, it raises
  nothing, and the piece it leaves is the result of assigning False to the \<open>blinking\<close>
  property of the piece with its selected flag cleared, so its blink flag is False; no
  piece is recorded as selected afterwards. The flag is also toggled by the piece's own
  tick: GamePiece.tick of a piece with a surface raises nothing, negates the flag if the
  piece is selected and leaves it as it is otherwise, and changes nothing else of the
  piece.
\<close>

theorem blinking_assignment_sets_flag:
  "setattr GamePiece_blinking piece v = Inr (piece\<lparr>p_blinking := v\<rparr>)
   \<and> (b_piece_selected (g_board g) = Some p \<and> piece_at g p = Inr pc \<longrightarrow>
        (\<exists>g'. clear_selected_piece g = Inr g'
           \<and> piece_at g' p = setattr GamePiece_blinking (pc\<lparr>t_selected := False\<rparr>) False
           \<and> piece_at g' p = Inr (pc\<lparr>t_selected := False, p_blinking := False\<rparr>)
           \<and> b_piece_selected (g_board g') = None))
   \<and> (t_surface piece = Some a \<longrightarrow>
        (\<exists>h'. GamePiece_tick piece h =
           Inr (piece\<lparr>p_blinking :=
                  (if t_selected piece then \<not> p_blinking piece else p_blinking piece)\<rparr>, h')))"
proof (intro conjI impI)
  show assign: "setattr GamePiece_blinking piece v = Inr (piece\<lparr>p_blinking := v\<rparr>)" for piece v
    by (simp add: setattr_def GamePiece_blinking_def setter_def)
  show "\<exists>g'. clear_selected_piece g = Inr g'
           \<and> piece_at g' p = setattr GamePiece_blinking (pc\<lparr>t_selected := False\<rparr>) False
           \<and> piece_at g' p = Inr (pc\<lparr>t_selected := False, p_blinking := False\<rparr>)
           \<and> b_piece_selected (g_board g') = None"
    if "b_piece_selected (g_board g) = Some p \<and> piece_at g p = Inr pc"
  proof -
    from that have sel: "b_piece_selected (g_board g) = Some p"
      and p: "p < length (b_pieces (g_board g))" and pc: "pc = b_pieces (g_board g) ! p"
      by (auto simp: piece_at_def split: if_splits)
    let ?g' = "with_pieces ((b_pieces (g_board g))
                 [p := (b_pieces (g_board g) ! p)\<lparr>t_selected := False, p_blinking := False\<rparr>]) None g"
    have "clear_selected_piece g = Inr ?g'"
      using sel p by (rule clear_selected_piece_Inr)
    moreover have "piece_at ?g' p = Inr (pc\<lparr>t_selected := False, p_blinking := False\<rparr>)"
      using p by (simp add: piece_at_def pc)
    moreover have "b_piece_selected (g_board ?g') = None"
      by simp
    ultimately show ?thesis
      using assign [of "pc\<lparr>t_selected := False\<rparr>" False] by auto
  qed
  show "\<exists>h'. GamePiece_tick piece h =
           Inr (piece\<lparr>p_blinking :=
                  (if t_selected piece then \<not> p_blinking piece else p_blinking piece)\<rparr>, h')"
    if "t_surface piece = Some a"
    using that by (cases "t_selected piece"; cases "p_blinking piece")
      (simp_all add: GamePiece_tick_def Let_def)
qed

theorem blinking_assignment_witness:
  "b_piece_selected (g_board demo_selected) = Some 10
   \<and> (\<exists>pc g'. piece_at demo_selected 10 = Inr pc \<and> t_selected pc
         \<and> clear_selected_piece demo_selected = Inr g'
         \<and> piece_at g' 10 = Inr (pc\<lparr>t_selected := False, p_blinking := False\<rparr>)
         \<and> b_piece_selected (g_board g') = None)
   \<and> (\<exists>h'. GamePiece_tick (GamePiece_init\<lparr>t_surface := Some 0, t_selected := True\<rparr>) demo_surfaces =
         Inr (GamePiece_init\<lparr>t_surface := Some 0, t_selected := True, p_blinking := True\<rparr>, h'))"
proof -
  have sel: "b_piece_selected (g_board demo_selected) = Some 10"
    using demo_selected_facts by simp
  have one: "one_selected demo_selected"
    using demo_selected_reachable by (intro board_inv_one_selected reachable_board_inv)
  with sel have lt: "10 < length (b_pieces (g_board demo_selected))"
    by (simp add: one_selected_def)
  let ?pc = "b_pieces (g_board demo_selected) ! 10"
  have pc: "piece_at demo_selected 10 = Inr ?pc"
    using lt by (rule piece_at_Inr)
  have flag: "t_selected ?pc"
    using one sel lt by (simp add: one_selected_def)
  from blinking_assignment_sets_flag
         [of "GamePiece_init\<lparr>t_surface := Some 0, t_selected := True\<rparr>" False demo_selected 10 ?pc
             0 demo_surfaces]
       sel pc
  have "(\<exists>g'. clear_selected_piece demo_selected = Inr g'
           \<and> piece_at g' 10 = Inr (?pc\<lparr>t_selected := False, p_blinking := False\<rparr>)
           \<and> b_piece_selected (g_board g') = None)
      \<and> (\<exists>h'. GamePiece_tick (GamePiece_init\<lparr>t_surface := Some 0, t_selected := True\<rparr>) demo_surfaces =
           Inr (GamePiece_init\<lparr>t_surface := Some 0, t_selected := True, p_blinking := True\<rparr>, h'))"
    by (auto simp: GamePiece_init_def)
  with sel pc flag show ?thesis by blast
qed

text \<open>
  C9 as stated fails: assigning False to the \<open>blinking\<close> property of a piece whose blink
  flag is True leaves a piece whose blink flag is False.
\<close>

theorem blinking_assignment_counterexample:
  "setattr GamePiece_blinking (GamePiece_init\<lparr>p_blinking := True\<rparr>) False = Inr GamePiece_init
   \<and> p_blinking GamePiece_init \<noteq> p_blinking (GamePiece_init\<lparr>p_blinking := True\<rparr>)"
  by (simp add: setattr_def GamePiece_blinking_def setter_def GamePiece_init_def)

end
